theory Spec2Isabelle
  imports Complex_Main
begin

section \<open>Strings\<close>

text \<open>
  Python strings are modelled as \<^typ>\<open>string\<close>.  \<open>str.lower()\<close> is modelled on the
  ASCII letters; every other character is left as it is.
\<close>

definition lower_char :: "char \<Rightarrow> char" where
  "lower_char c =
     (case map_of (zip ''ABCDEFGHIJKLMNOPQRSTUVWXYZ'' ''abcdefghijklmnopqrstuvwxyz'') c of
        Some d \<Rightarrow> d
      | None \<Rightarrow> c)"

definition lower :: "string \<Rightarrow> string" where
  "lower s = map lower_char s"

text \<open>\<open>str.startswith\<close> and the substring test \<open>k in s\<close>.\<close>

fun startswith :: "string \<Rightarrow> string \<Rightarrow> bool" where
  "startswith s [] = True"
| "startswith [] (k # ks) = False"
| "startswith (c # cs) (k # ks) = (c = k \<and> startswith cs ks)"

fun str_in :: "string \<Rightarrow> string \<Rightarrow> bool" where
  "str_in k [] = (k = [])"
| "str_in k (c # cs) = (startswith (c # cs) k \<or> str_in k cs)"

text \<open>A call that may raise returns \<open>Inl\<close> of the exception's message.\<close>

type_synonym 'a outcome = "string + 'a"

section \<open>checkout\_guard.py\<close>

text \<open>
  The dictionary returned by the checkout classifier.  The two keys that
  \<open>check_before_click\<close> reads with a default (\<open>.get('is_checkout', False)\<close>,
  \<open>.get('confidence', 0)\<close>) are optional: \<open>None\<close> is a missing key.  The confidence is
  the number the classifier returned; the threshold \<open>0.7\<close> is the rational \<open>7/10\<close>.
\<close>

record detection =
  is_checkout :: "bool option"
  confidence :: "rat option"
  detected_keywords :: "string list"
  total_price :: "string option"
  det_reasoning :: string

type_synonym detection_cache = "string \<rightharpoonup> detection \<times> rat"

definition CACHE_TTL :: rat where
  "CACHE_TTL = 5"

definition detection_failed :: "string \<Rightarrow> detection" where
  "detection_failed e =
     \<lparr>is_checkout = Some False, confidence = Some 0, detected_keywords = [],
      total_price = None, det_reasoning = ''Detection failed: '' @ e\<rparr>"

text \<open>
  \<open>is_checkout_page\<close>: \<open>url\<close> is \<open>page.url\<close>, \<open>now\<close> is \<open>time.time()\<close>, and \<open>vision\<close> is
  what \<open>get_vision_analyzer().detect_checkout_page(screenshot)\<close> does when it is called:
  it returns a dictionary or raises.  The module-level cache is passed in and returned.
\<close>

definition is_checkout_page ::
  "detection_cache \<Rightarrow> string \<Rightarrow> rat \<Rightarrow> detection outcome \<Rightarrow> detection \<times> detection_cache" where
  "is_checkout_page cache url now vision =
     (let fresh = (case vision of
                     Inl e \<Rightarrow> (detection_failed e, cache)
                   | Inr result \<Rightarrow> (result, cache(url \<mapsto> (result, now))))
      in case cache url of
           Some (cached_result, cached_time) \<Rightarrow>
             if now - cached_time < CACHE_TTL then (cached_result, cache) else fresh
         | None \<Rightarrow> fresh)"

definition high_risk_keywords :: "string list" where
  "high_risk_keywords =
     [''place order'', ''complete purchase'', ''confirm order'', ''buy now'',
      ''complete order'', ''submit order'', ''pay now'', ''confirm purchase'',
      ''checkout'', ''confirm payment'']"

definition is_risky_element :: "string \<Rightarrow> bool" where
  "is_risky_element element_text =
     list_ex (\<lambda>keyword. str_in keyword (lower element_text)) high_risk_keywords"

record verdict =
  safe :: bool
  requires_approval :: bool
  reason :: string
  checkout_info :: "detection option"

definition detected_checkout :: "detection \<Rightarrow> bool" where
  "detected_checkout d = (case is_checkout d of None \<Rightarrow> False | Some b \<Rightarrow> b)"

definition detected_confidence :: "detection \<Rightarrow> rat" where
  "detected_confidence d = (case confidence d of None \<Rightarrow> 0 | Some c \<Rightarrow> c)"

definition quoted :: "string \<Rightarrow> string" where
  "quoted s = [CHR 0x27] @ s @ [CHR 0x27]"

definition check_before_click ::
  "detection_cache \<Rightarrow> string \<Rightarrow> rat \<Rightarrow> detection outcome \<Rightarrow> string \<Rightarrow> verdict \<times> detection_cache" where
  "check_before_click cache url now vision element_text =
     (let (detection, cache') = is_checkout_page cache url now vision;
          risky = is_risky_element element_text;
          (approval, why) =
            (if detected_checkout detection \<and> detected_confidence detection > 7 / 10 then
               (if risky then
                  (True, ''Checkout page detected with purchase button: '' @ quoted element_text)
                else (False, ''On checkout page but element appears safe''))
             else if risky then
               (True, ''Potentially risky action: clicking '' @ quoted element_text)
             else (False, ''Safe to proceed''))
      in (\<lparr>safe = \<not> approval, requires_approval = approval, reason = why,
           checkout_info = (if detected_checkout detection then Some detection else None)\<rparr>,
          cache'))"

section \<open>JSON values\<close>

text \<open>
  The values that \<open>json.loads\<close> returns.  A float is the rational number it denotes;
  the floats that are no numbers (\<open>NaN\<close>, \<open>Infinity\<close>) behave in this program as a
  float that is neither zero nor integral does.
\<close>

datatype json =
  JNull
| JBool bool
| JInt int
| JFloat rat
| JStr string
| JList "json list"
| JDict "(string \<times> json) list"

text \<open>The truth value of a value in a condition (\<open>if v\<close>, \<open>not v\<close>, \<open>v or w\<close>).\<close>

fun truthy :: "json \<Rightarrow> bool" where
  "truthy JNull = False"
| "truthy (JBool b) = b"
| "truthy (JInt n) = (n \<noteq> 0)"
| "truthy (JFloat r) = (r \<noteq> 0)"
| "truthy (JStr s) = (s \<noteq> [])"
| "truthy (JList xs) = (xs \<noteq> [])"
| "truthy (JDict kvs) = (kvs \<noteq> [])"

text \<open>
  The slice \<open>v[:n]\<close>, which this program takes for its log lines only: \<open>slice_error v\<close>
  is the message of the exception that the slice raises, and \<open>None\<close> when the value is
  a string or a list and the slice is taken.  For a dictionary the message is the one
  of Python 3.10 and 3.11, the oldest interpreters that \<open>setup.py\<close> admits.
\<close>

fun slice_error :: "json \<Rightarrow> string option" where
  "slice_error (JStr s) = None"
| "slice_error (JList xs) = None"
| "slice_error JNull = Some (quoted ''NoneType'' @ '' object is not subscriptable'')"
| "slice_error (JBool b) = Some (quoted ''bool'' @ '' object is not subscriptable'')"
| "slice_error (JInt n) = Some (quoted ''int'' @ '' object is not subscriptable'')"
| "slice_error (JFloat r) = Some (quoted ''float'' @ '' object is not subscriptable'')"
| "slice_error (JDict kvs) = Some (''unhashable type: '' @ quoted ''slice'')"

text \<open>
  The keys of \<open>markers_map\<close> are integers or strings.  \<open>key_of v\<close> is the key that the
  value \<open>v\<close> is looked up under (\<open>v in markers_map\<close>, \<open>markers_map[v]\<close>,
  \<open>markers_map.get(v)\<close>): \<open>True\<close> and \<open>1.0\<close> are equal to \<open>1\<close> and hash alike;
  \<open>None\<close> and a float that is no integer are equal to no key; a list or a dictionary
  cannot be hashed, and the lookup raises.
\<close>

datatype dict_key = IntKey int | StrKey string

fun key_of :: "json \<Rightarrow> dict_key option outcome" where
  "key_of JNull = Inr None"
| "key_of (JBool b) = Inr (Some (IntKey (if b then 1 else 0)))"
| "key_of (JInt n) = Inr (Some (IntKey n))"
| "key_of (JFloat r) = Inr (if of_int \<lfloor>r\<rfloor> = r then Some (IntKey \<lfloor>r\<rfloor>) else None)"
| "key_of (JStr s) = Inr (Some (StrKey s))"
| "key_of (JList xs) = Inl (''unhashable type: '' @ quoted ''list'')"
| "key_of (JDict kvs) = Inl (''unhashable type: '' @ quoted ''dict'')"

section \<open>gemini\_helper.py: the action returned by the decision oracle\<close>

text \<open>
  The parsed JSON object of an action, with the four keys that the program reads.  A
  field is \<open>None\<close> when its key is missing and \<open>Some JNull\<close> when its value is \<open>null\<close>;
  \<open>get_or x d\<close> is \<open>action.get(key, d)\<close>, and \<open>action.get(key)\<close> is \<open>get_or x JNull\<close>.
\<close>

record agent_action =
  action :: "json option"
  target :: "json option"
  act_value :: "json option"
  reasoning :: "json option"

definition get_or :: "json option \<Rightarrow> json \<Rightarrow> json" where
  "get_or x d = (case x of None \<Rightarrow> d | Some v \<Rightarrow> v)"

definition validate_action :: "agent_action \<Rightarrow> bool" where
  "validate_action a =
     (if action a = None \<or> reasoning a = None then False
      else if the (action a) \<notin> set (map JStr [''click'', ''type'', ''scroll'', ''done'']) then False
      else if action a = Some (JStr ''type'') \<and> \<not> truthy (get_or (act_value a) JNull) then False
      else if action a = Some (JStr ''click'') \<and> \<not> truthy (get_or (target a) JNull) then False
      else True)"

section \<open>agent\_state.py\<close>

datatype status =
  Planning | Observing | Reasoning | Executing | Waiting | Complete | Error

text \<open>
  The content of a message is kept as a value: the constructor is the template of the
  f-string and its arguments are the values interpolated into it.
\<close>

datatype approval_body =
  OrderSummary detection
| Reason string

text \<open>
  The exception that leaves the \<open>try\<close> block of \<open>execute_click\<close> or \<open>execute_type\<close>:
  the \<open>ValueError\<close> of a target that did not resolve, whose message interpolates the
  target, or an exception raised by a call, with its message.
\<close>

datatype failure =
  Could_not_find json
| Raised string

datatype message =
  HumanMessage string
| Observed string nat
| ReasoningPlanned json json json
| ApprovalRequired approval_body
| Clicked json
| ClickFailed json failure
| Typed json json
| TypeFailed json failure
| Scrolled
| ScrollFailed string

text \<open>
  One entry of \<open>markers_map\<close>.  \<open>selectors\<close> is the key \<open>"selectors"\<close> (missing: the
  empty list) and \<open>selector\<close> the key \<open>"selector"\<close> (\<open>None\<close>: missing).
\<close>

record element_info =
  el_type :: string
  el_text :: string
  selector :: "string option"
  selectors :: "string list"
  aria_label :: string
  placeholder :: string
  href :: string
  el_name :: string
  input_type :: string
  position :: "int \<times> int"

record agent_state =
  messages :: "message list"
  current_url :: string
  screenshot_base64 :: string
  markers_map :: "dict_key \<rightharpoonup> element_info"
  last_action :: "agent_action option"
  action_history :: "agent_action list"
  user_goal :: string
  session_id :: string
  status :: status
  iterations :: int
  max_iterations :: int
  error :: "string option"
  approval_required :: bool
  approval_granted :: bool

definition create_initial_state :: "string \<Rightarrow> string \<Rightarrow> string \<Rightarrow> int \<Rightarrow> agent_state" where
  "create_initial_state goal sid initial_url max_iter =
     \<lparr>messages = [HumanMessage (''Goal: '' @ goal)],
      current_url = initial_url,
      screenshot_base64 = [],
      markers_map = Map.empty,
      last_action = None,
      action_history = [],
      user_goal = goal,
      session_id = sid,
      status = Planning,
      iterations = 0,
      max_iterations = max_iter,
      error = None,
      approval_required = False,
      approval_granted = False\<rparr>"

definition add_message :: "agent_state \<Rightarrow> message \<Rightarrow> agent_state" where
  "add_message state m = state\<lparr>messages := messages state @ [m]\<rparr>"

definition add_action :: "agent_state \<Rightarrow> agent_action \<Rightarrow> agent_state" where
  "add_action state a =
     state\<lparr>last_action := Some a, action_history := action_history state @ [a]\<rparr>"

text \<open>
  \<open>last_action\<close> is \<open>None\<close> for Python's \<open>None\<close>; a stored action is a dictionary
  with at least one key, hence truthy.
\<close>

definition is_complete :: "agent_state \<Rightarrow> bool" where
  "is_complete state =
     (if status state = Complete then True
      else case last_action state of
             Some a \<Rightarrow> action a = Some (JStr ''done'')
           | None \<Rightarrow> False)"

definition should_stop :: "agent_state \<Rightarrow> bool" where
  "should_stop state =
     (if is_complete state then True
      else if iterations state \<ge> max_iterations state then True
      else if status state = Error then True
      else if approval_required state \<and> \<not> approval_granted state then True
      else False)"

definition increment_iteration :: "agent_state \<Rightarrow> agent_state" where
  "increment_iteration state = state\<lparr>iterations := iterations state + 1\<rparr>"

definition set_status :: "agent_state \<Rightarrow> status \<Rightarrow> agent_state" where
  "set_status state st = state\<lparr>status := st\<rparr>"

definition set_error :: "agent_state \<Rightarrow> string \<Rightarrow> agent_state" where
  "set_error state e = state\<lparr>error := Some e, status := Error\<rparr>"

text \<open>\<open>xs[-count:]\<close> for a positive \<open>count\<close>.\<close>

definition get_recent_actions :: "agent_state \<Rightarrow> nat \<Rightarrow> agent_action list" where
  "get_recent_actions state count =
     drop (length (action_history state) - count) (action_history state)"

section \<open>The browser page\<close>

text \<open>
  What the scripts and probes of this program read from the live page.  An element of
  the document carries the properties that the marker script reads; \<open>node\<close> is its
  identity.
\<close>

record dom_element =
  node :: nat
  tagName :: string
  el_id :: string
  name_prop :: string
  attributes :: "(string \<times> string) list"
  className :: string
  classList :: "string list"
  type_prop :: string
  parent_index :: "nat option"
  innerText :: "string option"
  value_prop :: string
  rect_left :: rat
  rect_top :: rat
  rect_right :: rat
  rect_bottom :: rat
  rect_width :: rat
  rect_height :: rat
  css_visibility :: string
  css_display :: string

record element_handle =
  is_visible :: "bool outcome"
  is_enabled :: "bool outcome"

text \<open>
  \<open>interactive_elements\<close> is the result of \<open>document.querySelectorAll\<close> on the joined
  list of interactive selectors, in document order; \<open>script_error\<close> is the exception of
  \<open>page.evaluate(markers_script)\<close>, if it raises; \<open>netloc\<close> is
  \<open>urlparse(page.url).netloc\<close>.  \<open>wait_for_selector s t\<close> is the wait with
  \<open>state="visible"\<close> and timeout \<open>t\<close>; \<open>evaluate_click\<close> is the script that looks the
  element up and clicks it if it is there; \<open>type_text s v\<close> is \<open>page.type\<close> with the
  value of the action as it is handed over.
\<close>

record page =
  url :: string
  netloc :: string
  innerWidth :: rat
  innerHeight :: rat
  scrollTop :: rat
  scrollLeft :: rat
  interactive_elements :: "dom_element list"
  script_error :: "string option"
  wait_for_selector :: "string \<Rightarrow> nat \<Rightarrow> unit outcome"
  query_selector :: "string \<Rightarrow> element_handle option outcome"
  click :: "string \<Rightarrow> unit outcome"
  evaluate_click :: "string \<Rightarrow> unit outcome"
  force_click :: "string \<Rightarrow> unit outcome"
  focus :: "string \<Rightarrow> unit outcome"
  fill :: "string \<Rightarrow> string \<Rightarrow> unit outcome"
  type_text :: "string \<Rightarrow> json \<Rightarrow> unit outcome"
  press :: "string \<Rightarrow> string \<Rightarrow> unit outcome"
  scroll :: "unit outcome"
  take_screenshot :: "string outcome"
  time_now :: rat
  detect_checkout_page :: "detection outcome"

section \<open>vision\_utils.py: the marker script\<close>

definition digit_char :: "nat \<Rightarrow> char" where
  "digit_char d = ''0123456789'' ! d"

fun str_nat :: "nat \<Rightarrow> string" where
  "str_nat n = (if n < 10 then [digit_char n] else str_nat (n div 10) @ [digit_char (n mod 10)])"

declare str_nat.simps [simp del]

definition isVisible :: "page \<Rightarrow> dom_element \<Rightarrow> bool" where
  "isVisible pg e =
     (rect_width e > 0 \<and> rect_height e > 0 \<and>
      rect_top e < innerHeight pg \<and> rect_bottom e > 0 \<and>
      rect_left e < innerWidth pg \<and> rect_right e > 0 \<and>
      css_visibility e \<noteq> ''hidden'' \<and> css_display e \<noteq> ''none'')"

definition getAttribute :: "dom_element \<Rightarrow> string \<Rightarrow> string option" where
  "getAttribute e a = map_of (attributes e) a"

definition attribute_or_empty :: "dom_element \<Rightarrow> string \<Rightarrow> string" where
  "attribute_or_empty e a = (case getAttribute e a of None \<Rightarrow> [] | Some v \<Rightarrow> v)"

definition dq :: string where
  "dq = [CHR 0x22]"

definition attr_selector :: "string \<Rightarrow> string \<Rightarrow> string \<Rightarrow> string" where
  "attr_selector tag a v = tag @ ''['' @ a @ ''='' @ dq @ v @ dq @ '']''"

fun join :: "string \<Rightarrow> string list \<Rightarrow> string" where
  "join sep [] = []"
| "join sep [x] = x"
| "join sep (x # y # ys) = x @ sep @ join sep (y # ys)"

text \<open>The candidate selectors of one element, priorities 1 to 7.\<close>

definition element_selectors :: "dom_element \<Rightarrow> string list" where
  "element_selectors e =
     (let tag = lower (tagName e);
          classes = join ''.'' (take 2 (filter (\<lambda>c. \<not> startswith c ''ai-marker'') (classList e)))
      in (if el_id e \<noteq> [] then [''#'' @ el_id e] else [])
       @ (if name_prop e \<noteq> [] then [attr_selector tag ''name'' (name_prop e)] else [])
       @ (case find (\<lambda>(a, v). startswith a ''data-'') (attributes e) of
            Some (a, v) \<Rightarrow> [attr_selector tag a v]
          | None \<Rightarrow> [])
       @ (if attribute_or_empty e ''aria-label'' \<noteq> []
          then [attr_selector tag ''aria-label'' (attribute_or_empty e ''aria-label'')] else [])
       @ (if className e \<noteq> [] \<and> classes \<noteq> [] then [tag @ ''.'' @ classes] else [])
       @ (if type_prop e \<noteq> [] then [attr_selector tag ''type'' (type_prop e)] else [])
       @ (case parent_index e of
            Some i \<Rightarrow> [tag @ '':nth-child('' @ str_nat i @ '')'']
          | None \<Rightarrow> []))"

definition is_space :: "char \<Rightarrow> bool" where
  "is_space c = (c \<in> set [CHR 0x20, CHR 0x09, CHR 0x0A, CHR 0x0B, CHR 0x0C, CHR 0x0D])"

definition strip :: "string \<Rightarrow> string" where
  "strip s = rev (dropWhile is_space (rev (dropWhile is_space s)))"

definition js_round :: "rat \<Rightarrow> int" where
  "js_round x = \<lfloor>x + 1 / 2\<rfloor>"

definition element_entry :: "page \<Rightarrow> dom_element \<Rightarrow> element_info" where
  "element_entry pg e =
     (let sels = element_selectors e;
          trimmed = (case innerText e of None \<Rightarrow> [] | Some t \<Rightarrow> take 100 (strip t))
      in \<lparr>el_type = lower (tagName e),
          el_text = (if trimmed \<noteq> [] then trimmed else value_prop e),
          selector = Some (case sels of [] \<Rightarrow> lower (tagName e) | x # _ \<Rightarrow> x),
          selectors = sels,
          aria_label = attribute_or_empty e ''aria-label'',
          placeholder = attribute_or_empty e ''placeholder'',
          href = attribute_or_empty e ''href'',
          el_name = attribute_or_empty e ''name'',
          input_type = attribute_or_empty e ''type'',
          position = (js_round (rect_left e + scrollLeft pg), js_round (rect_top e + scrollTop pg))\<rparr>)"

text \<open>
  The \<open>forEach\<close> of the marker script: \<open>markerNumber\<close> is the next label and
  \<open>processedElements\<close> the elements labelled so far.  The result lists the entries of
  \<open>markers\<close> in the order in which they are stored.
\<close>

fun mark_elements ::
  "page \<Rightarrow> dom_element list \<Rightarrow> nat \<Rightarrow> nat list \<Rightarrow> (nat \<times> element_info) list" where
  "mark_elements pg [] markerNumber processedElements = []"
| "mark_elements pg (e # es) markerNumber processedElements =
     (if node e \<in> set processedElements then mark_elements pg es markerNumber processedElements
      else if \<not> isVisible pg e then mark_elements pg es markerNumber processedElements
      else (markerNumber, element_entry pg e)
             # mark_elements pg es (markerNumber + 1) (node e # processedElements))"

definition markers_script :: "page \<Rightarrow> (nat \<times> element_info) list" where
  "markers_script pg = mark_elements pg (interactive_elements pg) 1 []"

section \<open>amazon\_selectors.py\<close>

definition endswith :: "string \<Rightarrow> string \<Rightarrow> bool" where
  "endswith s suffix = startswith (rev s) (rev suffix)"

definition amazon_domains :: "string list" where
  "amazon_domains =
     [''amazon.com'', ''amazon.co.uk'', ''amazon.ca'', ''amazon.de'', ''amazon.fr'',
      ''amazon.it'', ''amazon.es'', ''amazon.in'', ''amazon.co.jp'', ''amazon.com.au'',
      ''amazon.com.mx'', ''amazon.com.br'']"

text \<open>\<open>is_amazon_url\<close>, on the \<open>netloc\<close> that \<open>urlparse\<close> returns for the URL.\<close>

definition is_amazon_url :: "string \<Rightarrow> bool" where
  "is_amazon_url parsed_netloc =
     (let domain = lower parsed_netloc
      in list_ex (\<lambda>d. endswith domain d \<or> domain = d) amazon_domains)"

definition get_amazon_element_selectors :: "string \<Rightarrow> string list" where
  "get_amazon_element_selectors element_type =
     (if element_type = ''search_box'' then
        [''#twotabsearchtextbox'', ''input[name='' @ quoted ''field-keywords'' @ '']'',
         ''input[type='' @ quoted ''text'' @ ''][aria-label*='' @ quoted ''Search'' @ '']'',
         ''input#nav-search-keywords'', ''input.nav-input'']
      else if element_type = ''search_button'' then
        [''#nav-search-submit-button'',
         ''input[type='' @ quoted ''submit'' @ ''][value='' @ quoted ''Go'' @ '']'',
         ''input.nav-input[type='' @ quoted ''submit'' @ '']'',
         ''button[type='' @ quoted ''submit'' @ ''][aria-label*='' @ quoted ''Go'' @ '']'',
         ''#nav-search-bar-form input[type='' @ quoted ''submit'' @ '']'']
      else if element_type = ''product_link'' then
        [''h2 a.a-link-normal'', ''.s-result-item h2 a'',
         ''div[data-component-type='' @ quoted ''s-search-result'' @ ''] h2 a'',
         ''a.s-no-outline'', ''.s-product-image-container a'']
      else if element_type = ''add_to_cart'' then
        [''#add-to-cart-button'', ''input#add-to-cart-button'',
         ''button[name='' @ quoted ''submit.add-to-cart'' @ '']'',
         ''#submit.add-to-cart-announce'']
      else if element_type = ''buy_now'' then
        [''#buy-now-button'', ''input#buy-now-button'',
         ''button[name='' @ quoted ''submit.buy-now'' @ '']'']
      else if element_type = ''price'' then
        [''.a-price-whole'', ''span.a-price'', ''.a-offscreen'', ''#priceblock_ourprice'',
         ''#priceblock_dealprice'']
      else if element_type = ''next_page'' then
        [''.s-pagination-next'', ''a:contains('' @ quoted ''Next'' @ '')'', ''li.a-last a'']
      else if element_type = ''filter_options'' then
        [''#s-refinements a'', ''.a-checkbox'', ''li.a-spacing-micro a'']
      else [])"

definition selector_or_empty :: "element_info \<Rightarrow> string" where
  "selector_or_empty info = (case selector info of None \<Rightarrow> [] | Some x \<Rightarrow> x)"

definition build_xpath_selector :: "element_info \<Rightarrow> string option" where
  "build_xpath_selector info =
     (let txt = strip (el_text info);
          aria = strip (aria_label info);
          ph = strip (placeholder info);
          xpath_parts =
            (if txt \<noteq> [] \<and> length txt < 50
             then [''contains(text(), '' @ quoted (take 30 txt) @ '')''] else [])
          @ (if aria \<noteq> [] then [''@aria-label='' @ quoted aria] else [])
          @ (if ph \<noteq> [] then [''@placeholder='' @ quoted ph] else [])
          @ (if el_name info \<noteq> [] then [''@name='' @ quoted (el_name info)] else [])
      in if xpath_parts \<noteq> []
         then Some (''//'' @ lower (el_type info) @ ''['' @ join '' or '' xpath_parts @ '']'')
         else None)"

text \<open>The loop that removes duplicates and empty strings, keeping the first occurrences.\<close>

fun unique_selectors :: "string list \<Rightarrow> string list \<Rightarrow> string list" where
  "unique_selectors [] seen = []"
| "unique_selectors (sel # rest) seen =
     (if sel \<noteq> [] \<and> sel \<notin> set seen then sel # unique_selectors rest (sel # seen)
      else unique_selectors rest seen)"

definition enhance_element_with_amazon_selectors :: "element_info \<Rightarrow> string \<Rightarrow> element_info" where
  "enhance_element_with_amazon_selectors info parsed_netloc =
     (if \<not> is_amazon_url parsed_netloc then info
      else
        let own = [selector_or_empty info];
            element_type = lower (el_type info);
            txt = lower (el_text info);
            aria = lower (aria_label info);
            ph = lower (placeholder info);
            nm = lower (el_name info);
            sels =
              (if element_type = ''input'' then
                 (if str_in ''search'' ph \<or> str_in ''search'' aria \<or> str_in ''field-keywords'' nm
                  then get_amazon_element_selectors ''search_box'' @ own
                  else if input_type info = ''submit'' then
                    (if str_in ''search'' aria \<or> str_in ''go'' (lower txt)
                     then get_amazon_element_selectors ''search_button'' @ own
                     else own)
                  else own)
               else if element_type = ''button'' then
                 (if str_in ''add to cart'' txt \<or> str_in ''add-to-cart'' (selector_or_empty info)
                  then get_amazon_element_selectors ''add_to_cart'' @ own
                  else if str_in ''buy now'' txt
                  then get_amazon_element_selectors ''buy_now'' @ own
                  else if str_in ''search'' aria \<or> str_in ''go'' txt
                  then get_amazon_element_selectors ''search_button'' @ own
                  else own)
               else if element_type = ''a'' then
                 (if str_in ''s-result-item'' (selector_or_empty info)
                  then get_amazon_element_selectors ''product_link'' @ own
                  else own)
               else own);
            with_xpath = (case build_xpath_selector info of Some xpath \<Rightarrow> sels @ [xpath] | None \<Rightarrow> sels);
            uniq = unique_selectors with_xpath []
        in info\<lparr>selectors := uniq,
                selector := Some (case uniq of x # _ \<Rightarrow> x | [] \<Rightarrow> selector_or_empty info)\<rparr>)"

section \<open>vision\_utils.py: the registry and the resolver\<close>

text \<open>
  \<open>page.evaluate\<close> hands the object \<open>markers\<close> of the script back as a dictionary
  whose keys are strings: the property names of the object, the decimal numerals of the
  labels.
\<close>

definition evaluate_markers_script :: "page \<Rightarrow> (string \<times> element_info) list" where
  "evaluate_markers_script pg =
     map (\<lambda>(markerNumber, info). (str_nat markerNumber, info)) (markers_script pg)"

text \<open>\<open>int(s)\<close> of a decimal numeral.\<close>

definition digit_value :: "char \<Rightarrow> nat" where
  "digit_value c = (case map_of (zip ''0123456789'' [0 ..< 10]) c of Some d \<Rightarrow> d | None \<Rightarrow> 0)"

definition int_of_str :: "string \<Rightarrow> int" where
  "int_of_str s = int (foldl (\<lambda>n c. 10 * n + digit_value c) 0 s)"

text \<open>
  \<open>inject_markers\<close>: the dictionary that \<open>page.evaluate\<close> returns; on an Amazon page
  every entry is enhanced and stored under \<open>int(marker_num)\<close>, on any other page the
  dictionary is returned as it is, with its string keys; the empty dictionary when the
  script raises.
\<close>

definition inject_markers :: "page \<Rightarrow> (dict_key \<rightharpoonup> element_info)" where
  "inject_markers pg =
     (case script_error pg of
        Some e \<Rightarrow> Map.empty
      | None \<Rightarrow>
          if is_amazon_url (netloc pg) then
            map_of (map (\<lambda>(marker_num, info).
                           (IntKey (int_of_str marker_num),
                            enhance_element_with_amazon_selectors info (netloc pg)))
                        (evaluate_markers_script pg))
          else map_of (map (\<lambda>(marker_num, info). (StrKey marker_num, info))
                           (evaluate_markers_script pg)))"

text \<open>
  The list that the resolver probes: the key \<open>"selectors"\<close>, or the single \<open>"selector"\<close>
  when that list is empty, without the \<open>None\<close> and empty entries.
\<close>

definition candidate_selectors :: "element_info \<Rightarrow> string list" where
  "candidate_selectors info =
     (let sels = (if selectors info = [] then [selector info] else map Some (selectors info))
      in concat (map (\<lambda>x. case x of None \<Rightarrow> [] | Some y \<Rightarrow> if y = [] then [] else [y]) sels))"

text \<open>The \<open>for\<close> loop over the candidates; an exception in a probe moves to the next one.\<close>

fun try_selectors :: "page \<Rightarrow> string list \<Rightarrow> string option" where
  "try_selectors pg [] = None"
| "try_selectors pg (sel # rest) =
     (case wait_for_selector pg sel 3000 of
        Inl e \<Rightarrow> try_selectors pg rest
      | Inr u \<Rightarrow>
         (case query_selector pg sel of
            Inl e \<Rightarrow> try_selectors pg rest
          | Inr None \<Rightarrow> try_selectors pg rest
          | Inr (Some element) \<Rightarrow>
             (case is_visible element of
                Inl e \<Rightarrow> try_selectors pg rest
              | Inr visible \<Rightarrow>
                 (case is_enabled element of
                    Inl e \<Rightarrow> try_selectors pg rest
                  | Inr enabled \<Rightarrow>
                      if visible \<and> enabled then Some sel else try_selectors pg rest))))"

text \<open>
  The probe that one pass of the loop applies to a candidate: the wait returns, the
  query finds an element, and the element reports itself visible and enabled.
\<close>

definition passes_probe :: "page \<Rightarrow> string \<Rightarrow> bool" where
  "passes_probe pg sel =
     (case wait_for_selector pg sel 3000 of
        Inl e \<Rightarrow> False
      | Inr u \<Rightarrow>
         (case query_selector pg sel of
            Inl e \<Rightarrow> False
          | Inr None \<Rightarrow> False
          | Inr (Some element) \<Rightarrow> is_visible element = Inr True \<and> is_enabled element = Inr True))"

text \<open>
  \<open>get_element_by_marker\<close>: the test \<open>marker_number not in markers_map\<close> raises for a
  marker number that cannot be hashed, and the exception leaves the function; after
  the loop the first candidate alone is queried once more.
\<close>

definition get_element_by_marker ::
  "page \<Rightarrow> (dict_key \<rightharpoonup> element_info) \<Rightarrow> json \<Rightarrow> string option outcome" where
  "get_element_by_marker pg mm marker_number =
     (case key_of marker_number of
        Inl e \<Rightarrow> Inl e
      | Inr None \<Rightarrow> Inr None
      | Inr (Some k) \<Rightarrow>
         (case mm k of
            None \<Rightarrow> Inr None
          | Some info \<Rightarrow>
             (case candidate_selectors info of
                [] \<Rightarrow> Inr None
              | first_selector # others \<Rightarrow>
                 (case try_selectors pg (first_selector # others) of
                    Some sel \<Rightarrow> Inr (Some sel)
                  | None \<Rightarrow>
                     (case query_selector pg first_selector of
                        Inr (Some element) \<Rightarrow> Inr (Some first_selector)
                      | Inr None \<Rightarrow> Inr None
                      | Inl e \<Rightarrow> Inr None)))))"

section \<open>ai\_vision.py: the decision oracle\<close>

text \<open>
  The vision collaborator of one cycle: \<open>analyzer_error\<close> is the exception of
  \<open>get_vision_analyzer()\<close>, \<open>image_error\<close> the one of the screenshot conversion, and
  \<open>generate i\<close> what the request and the JSON parse of attempt \<open>i\<close> give: the parsed
  object, or the exception of either.  A parsed value that is not an object fails the
  attempt as well, by the exception that \<open>validate_action\<close> raises or by its result
  \<open>False\<close>, and is an \<open>Inl\<close> here.
\<close>

record decision_oracle =
  analyzer_error :: "string option"
  image_error :: "string option"
  generate :: "nat \<Rightarrow> agent_action outcome"

definition max_retries :: nat where
  "max_retries = 3"

text \<open>
  One attempt: the request, the parse, the validation and the log line, which slices
  \<open>action.get('reasoning')[:100]\<close> and raises when that value cannot be sliced.
\<close>

definition attempt_once :: "decision_oracle \<Rightarrow> nat \<Rightarrow> agent_action outcome" where
  "attempt_once orc attempt =
     (case generate orc attempt of
        Inl e \<Rightarrow> Inl e
      | Inr a \<Rightarrow>
          if \<not> validate_action a then Inl ''Invalid action structure''
          else (case slice_error (get_or (reasoning a) JNull) of
                  Some e \<Rightarrow> Inl e
                | None \<Rightarrow> Inr a))"

text \<open>The loop \<open>for attempt in range(max_retries)\<close>, with \<open>remaining\<close> attempts left.\<close>

fun retry_attempts :: "decision_oracle \<Rightarrow> nat \<Rightarrow> nat \<Rightarrow> agent_action outcome" where
  "retry_attempts orc attempt 0 = Inl ''All retry attempts failed''"
| "retry_attempts orc attempt (Suc remaining) =
     (case attempt_once orc attempt of
        Inr a \<Rightarrow> Inr a
      | Inl e \<Rightarrow>
          if attempt < max_retries - 1 then retry_attempts orc (attempt + 1) remaining
          else Inl e)"

definition fallback_action :: "string \<Rightarrow> agent_action" where
  "fallback_action e =
     \<lparr>action = Some (JStr ''done''), target = Some JNull, act_value = Some JNull,
      reasoning = Some (JStr (''Error during analysis: '' @ e))\<rparr>"

definition analyze_page :: "decision_oracle \<Rightarrow> agent_action" where
  "analyze_page orc =
     (case image_error orc of
        Some e \<Rightarrow> fallback_action e
      | None \<Rightarrow>
         (case retry_attempts orc 0 max_retries of
            Inr a \<Rightarrow> a
          | Inl e \<Rightarrow> fallback_action e))"

section \<open>agent\_nodes.py\<close>

text \<open>The commands that change the page, in the order in which they are issued.\<close>

datatype page_event =
  Click string
| ScriptClick string
| ForceClick string
| Focus string
| Fill string string
| TypeText string json
| Press string string
| ScrollBy int

fun is_click_event :: "page_event \<Rightarrow> bool" where
  "is_click_event (Click sel) = True"
| "is_click_event (ScriptClick sel) = True"
| "is_click_event (ForceClick sel) = True"
| "is_click_event ev = False"

definition observer_node :: "page option \<Rightarrow> agent_state \<Rightarrow> agent_state" where
  "observer_node browser state =
     (let s1 = set_status state Observing
      in case browser of
           None \<Rightarrow> set_error s1 (''Observation failed: '' @ ''Browser not initialized. Call set_browser() first.'')
         | Some pg \<Rightarrow>
            (let s2 = s1\<lparr>current_url := url pg\<rparr>;
                 new_map = inject_markers pg;
                 s3 = s2\<lparr>markers_map := new_map\<rparr>
             in case take_screenshot pg of
                  Inl e \<Rightarrow> set_error s3 (''Observation failed: '' @ e)
                | Inr shot \<Rightarrow>
                    add_message (s3\<lparr>screenshot_base64 := shot\<rparr>)
                      (Observed (url pg) (card (dom new_map)))))"

text \<open>
  \<open>reasoning_node\<close>: after the message is added, the log line slices
  \<open>reasoning[:100]\<close>; an exception there leaves the \<open>try\<close> block.
\<close>

definition reasoning_node :: "decision_oracle \<Rightarrow> agent_state \<Rightarrow> agent_state" where
  "reasoning_node orc state =
     (let s1 = set_status state Reasoning
      in case analyzer_error orc of
           Some e \<Rightarrow> set_error s1 (''Reasoning failed: '' @ e)
         | None \<Rightarrow>
            (let a = analyze_page orc;
                 s2 = s1\<lparr>last_action := Some a\<rparr>;
                 why = get_or (reasoning a) (JStr ''No reasoning provided'');
                 action_type = get_or (action a) (JStr ''unknown'');
                 tgt = get_or (target a) (JStr ''N/A'');
                 s3 = add_message s2 (ReasoningPlanned why action_type tgt)
             in case slice_error why of
                  Some e \<Rightarrow> set_error s3 (''Reasoning failed: '' @ e)
                | None \<Rightarrow> if action_type = JStr ''done'' then set_status s3 Complete else s3))"

text \<open>
  The text handed to the safety guard: the element's \<open>text\<close>, or its \<open>aria_label\<close>
  when the text is empty; empty when the target has no entry.  \<open>execute_click\<close> reads
  it only after the resolver has returned a selector for the target, so the target can
  be hashed there.
\<close>

definition element_text_of :: "agent_state \<Rightarrow> json \<Rightarrow> string" where
  "element_text_of state tgt =
     (case key_of tgt of
        Inr (Some k) \<Rightarrow>
         (case markers_map state k of
            None \<Rightarrow> []
          | Some info \<Rightarrow> if el_text info \<noteq> [] then el_text info else aria_label info)
      | Inr None \<Rightarrow> []
      | Inl e \<Rightarrow> [])"

text \<open>
  The three click strategies: the wait and the standard click, then the script click,
  then the forced click.  The result is the exception that leaves the last strategy,
  if all fail, and the click commands issued.
\<close>

definition click_strategies :: "page \<Rightarrow> string \<Rightarrow> string option \<times> page_event list" where
  "click_strategies pg sel =
     (let first_try =
            (case wait_for_selector pg sel 5000 of
               Inl e1 \<Rightarrow> (False, [])
             | Inr u \<Rightarrow>
                (case click pg sel of
                   Inl e1 \<Rightarrow> (False, [Click sel])
                 | Inr u \<Rightarrow> (True, [Click sel])))
      in if fst first_try then (None, snd first_try)
         else case evaluate_click pg sel of
                Inr u \<Rightarrow> (None, snd first_try @ [ScriptClick sel])
              | Inl e2 \<Rightarrow>
                 (case force_click pg sel of
                    Inr u \<Rightarrow> (None, snd first_try @ [ScriptClick sel, ForceClick sel])
                  | Inl e3 \<Rightarrow> (Some e3, snd first_try @ [ScriptClick sel, ForceClick sel])))"

definition execute_click ::
  "page \<Rightarrow> agent_state \<Rightarrow> detection_cache \<Rightarrow> json
     \<Rightarrow> agent_state \<times> detection_cache \<times> page_event list" where
  "execute_click pg state cache tgt =
     (case get_element_by_marker pg (markers_map state) tgt of
        Inl e \<Rightarrow> (add_message state (ClickFailed tgt (Raised e)), cache, [])
      | Inr None \<Rightarrow> (add_message state (ClickFailed tgt (Could_not_find tgt)), cache, [])
      | Inr (Some sel) \<Rightarrow>
         (let (safety_check, cache') =
                check_before_click cache (url pg) (time_now pg) (detect_checkout_page pg)
                  (element_text_of state tgt)
          in if requires_approval safety_check then
               (add_message (state\<lparr>approval_required := True\<rparr>)
                  (ApprovalRequired
                     (case checkout_info safety_check of
                        Some info \<Rightarrow> OrderSummary info
                      | None \<Rightarrow> Reason (reason safety_check))),
                cache', [])
             else
               (case click_strategies pg sel of
                  (None, events) \<Rightarrow> (add_message state (Clicked tgt), cache', events)
                | (Some e, events) \<Rightarrow>
                    (add_message state (ClickFailed tgt (Raised e)), cache', events))))"

text \<open>Commands run in sequence until the first one raises.\<close>

fun run_steps :: "(page_event list \<times> unit outcome) list \<Rightarrow> string option \<times> page_event list" where
  "run_steps [] = (None, [])"
| "run_steps ((events, result) # rest) =
     (case result of
        Inl e \<Rightarrow> (Some e, events)
      | Inr u \<Rightarrow> (let (err, later) = run_steps rest in (err, events @ later)))"

definition execute_type ::
  "page \<Rightarrow> agent_state \<Rightarrow> json \<Rightarrow> json \<Rightarrow> agent_state \<times> page_event list" where
  "execute_type pg state tgt val =
     (case get_element_by_marker pg (markers_map state) tgt of
        Inl e \<Rightarrow> (add_message state (TypeFailed tgt (Raised e)), [])
      | Inr None \<Rightarrow> (add_message state (TypeFailed tgt (Could_not_find tgt)), [])
      | Inr (Some sel) \<Rightarrow>
         (case run_steps
                 [([], wait_for_selector pg sel 5000),
                  ([Focus sel], focus pg sel),
                  ([Fill sel []], fill pg sel []),
                  ([TypeText sel val], type_text pg sel val),
                  ([Press sel ''Enter''], press pg sel ''Enter'')] of
            (None, events) \<Rightarrow> (add_message state (Typed val tgt), events)
          | (Some e, events) \<Rightarrow> (add_message state (TypeFailed tgt (Raised e)), events)))"

text \<open>\<open>browser.scroll\<close> reports a failure by its result, which \<open>execute_scroll\<close> ignores.\<close>

definition execute_scroll :: "page \<Rightarrow> agent_state \<Rightarrow> agent_state \<times> page_event list" where
  "execute_scroll pg state = (add_message state Scrolled, [ScrollBy 500])"

text \<open>
  The log line of \<open>action_node\<close> evaluates \<open>value[:50] if value else None\<close> before the
  action is dispatched: \<open>log_error val\<close> is the message of the exception that this
  raises, for a value that is truthy and cannot be sliced.
\<close>

definition log_error :: "json \<Rightarrow> string option" where
  "log_error val = (if truthy val then slice_error val else None)"

text \<open>
  \<open>action_node\<close>.  An exception of \<open>get_browser()\<close> or of the log line leaves the
  \<open>try\<close> block: the handler sets the error and returns, and the action is neither
  dispatched nor added to the history.
\<close>

definition action_node ::
  "page option \<Rightarrow> agent_state \<times> detection_cache
     \<Rightarrow> agent_state \<times> detection_cache \<times> page_event list" where
  "action_node browser sc =
     (let (state, cache) = sc;
          s1 = set_status state Executing
      in case browser of
           None \<Rightarrow>
             (set_error s1 (''Action execution failed: '' @ ''Browser not initialized. Call set_browser() first.''),
              cache, [])
         | Some pg \<Rightarrow>
            (case last_action s1 of
               None \<Rightarrow> (s1, cache, [])
             | Some a \<Rightarrow>
                (let action_type = get_or (action a) JNull;
                     tgt = get_or (target a) JNull;
                     val = get_or (act_value a) JNull
                 in case log_error val of
                      Some e \<Rightarrow> (set_error s1 (''Action execution failed: '' @ e), cache, [])
                    | None \<Rightarrow>
                       (let (s2, cache', events) =
                              (if action_type = JStr ''click'' then execute_click pg s1 cache tgt
                               else if action_type = JStr ''type'' then
                                 (let (s, evs) = execute_type pg s1 tgt val in (s, cache, evs))
                               else if action_type = JStr ''scroll'' then
                                 (let (s, evs) = execute_scroll pg s1 in (s, cache, evs))
                               else if action_type = JStr ''done'' then (set_status s1 Complete, cache, [])
                               else (s1, cache, []))
                        in (increment_iteration (add_action s2 a), cache', events)))))"

section \<open>agent\_graph.py\<close>

datatype route = Continue | End

definition route_after_action :: "agent_state \<Rightarrow> route" where
  "route_after_action state = (if should_stop state then End else Continue)"

text \<open>
  One pass over the edges \<open>observer \<rightarrow> reasoning \<rightarrow> action\<close>, with the browser and the
  oracle of that cycle.
\<close>

record cycle_env =
  browser :: "page option"
  vision :: decision_oracle

definition run_cycle ::
  "cycle_env \<Rightarrow> agent_state \<times> detection_cache \<Rightarrow> agent_state \<times> detection_cache \<times> page_event list" where
  "run_cycle env sc =
     action_node (browser env)
       (reasoning_node (vision env) (observer_node (browser env) (fst sc)), snd sc)"

text \<open>
  The compiled graph: the entry point is the observer, and the conditional edge after
  the action node either loops back or ends.  The environments of the cycles are given
  as a list; the run ends when the router says so or when the list is used up, and the
  result says which.
\<close>

fun run_graph ::
  "cycle_env list \<Rightarrow> agent_state \<times> detection_cache \<Rightarrow> page_event list
     \<Rightarrow> bool \<times> agent_state \<times> detection_cache \<times> page_event list" where
  "run_graph [] sc events = (False, fst sc, snd sc, events)"
| "run_graph (env # envs) sc events =
     (let (state', cache', evs) = run_cycle env sc
      in if route_after_action state' = End then (True, state', cache', events @ evs)
         else run_graph envs (state', cache') (events @ evs))"

section \<open>Concrete inputs\<close>

text \<open>A classifier result with the given verdict and confidence.\<close>

definition classified :: "bool \<Rightarrow> rat \<Rightarrow> detection" where
  "classified b c =
     \<lparr>is_checkout = Some b, confidence = Some c, detected_keywords = [],
      total_price = None, det_reasoning = []\<rparr>"

text \<open>
  A page on which every probe and command fails and no element matches; the pages below
  change single answers of it.
\<close>

definition unresponsive_page :: page where
  "unresponsive_page =
     \<lparr>url = ''https://shop.example/'', netloc = ''shop.example'',
      innerWidth = 1280, innerHeight = 720, scrollTop = 0, scrollLeft = 0,
      interactive_elements = [], script_error = None,
      wait_for_selector = (\<lambda>sel t. Inl ''Timeout exceeded''),
      query_selector = (\<lambda>sel. Inr None),
      click = (\<lambda>sel. Inl ''Timeout exceeded''),
      evaluate_click = (\<lambda>sel. Inl ''Execution context was destroyed''),
      force_click = (\<lambda>sel. Inl ''Timeout exceeded''),
      focus = (\<lambda>sel. Inl ''Timeout exceeded''),
      fill = (\<lambda>sel v. Inl ''Timeout exceeded''),
      type_text = (\<lambda>sel v. Inl ''Timeout exceeded''),
      press = (\<lambda>sel k. Inl ''Timeout exceeded''),
      scroll = Inr (),
      take_screenshot = Inr ''iVBORw0KGgo='',
      time_now = 0,
      detect_checkout_page = Inr (classified False 0)\<rparr>"

definition handle :: "bool \<Rightarrow> bool \<Rightarrow> element_handle" where
  "handle v e = \<lparr>is_visible = Inr v, is_enabled = Inr e\<rparr>"

text \<open>A button entry with the given text, primary selector and selector list.\<close>

definition plain_info :: "string \<Rightarrow> string option \<Rightarrow> string list \<Rightarrow> element_info" where
  "plain_info txt sel sels =
     \<lparr>el_type = ''button'', el_text = txt, selector = sel, selectors = sels,
      aria_label = [], placeholder = [], href = [], el_name = [], input_type = [],
      position = (0, 0)\<rparr>"

text \<open>No element matches \<open>#gone\<close>; \<open>button.buy\<close> matches an element that is hidden.\<close>

definition hidden_second_page :: page where
  "hidden_second_page =
     unresponsive_page\<lparr>query_selector :=
       (\<lambda>sel. if sel = ''button.buy'' then Inr (Some (handle False True)) else Inr None)\<rparr>"

text \<open>The root element is there, visible and enabled.\<close>

definition html_page :: page where
  "html_page =
     unresponsive_page\<lparr>
       wait_for_selector := (\<lambda>sel t. if sel = ''html'' then Inr () else Inl ''Timeout exceeded''),
       query_selector := (\<lambda>sel. if sel = ''html'' then Inr (Some (handle True True)) else Inr None)\<rparr>"

text \<open>
  A document element with an id, placed at height \<open>y\<close>, and a page with three
  interactive elements of which the second is not displayed.
\<close>

definition element_at :: "nat \<Rightarrow> string \<Rightarrow> string \<Rightarrow> string \<Rightarrow> rat \<Rightarrow> string \<Rightarrow> dom_element" where
  "element_at n tag ident txt y disp =
     \<lparr>node = n, tagName = tag, el_id = ident, name_prop = [], attributes = [(''id'', ident)],
      className = [], classList = [], type_prop = [], parent_index = Some n,
      innerText = Some txt, value_prop = [],
      rect_left = 10, rect_top = y, rect_right = 110, rect_bottom = y + 30,
      rect_width = 100, rect_height = 30,
      css_visibility = ''visible'', css_display = disp\<rparr>"

definition shop_page :: page where
  "shop_page =
     unresponsive_page\<lparr>interactive_elements :=
       [element_at 1 ''INPUT'' ''search'' [] 20 ''block'',
        element_at 2 ''A'' ''promo'' ''Deals'' 60 ''none'',
        element_at 3 ''BUTTON'' ''cart'' ''Add to Cart'' 100 ''block'']\<rparr>"

text \<open>A click decision on a label, pages on which one selector resolves, and a state
  in which the observer has stored one button and the oracle has planned a click on it.\<close>

definition click_action :: "int \<Rightarrow> agent_action" where
  "click_action n =
     \<lparr>action = Some (JStr ''click''), target = Some (JInt n), act_value = Some JNull,
      reasoning = Some (JStr ''This element leads to the goal'')\<rparr>"

definition present_page :: "string \<Rightarrow> page" where
  "present_page s =
     unresponsive_page\<lparr>
       wait_for_selector := (\<lambda>sel t. if sel = s then Inr () else Inl ''Timeout exceeded''),
       query_selector := (\<lambda>sel. if sel = s then Inr (Some (handle True True)) else Inr None)\<rparr>"


definition stubborn_page :: page where
  "stubborn_page = (present_page ''#next'')\<lparr>force_click := (\<lambda>sel. Inr ())\<rparr>"

definition planned_state :: "string \<Rightarrow> string \<Rightarrow> agent_state" where
  "planned_state txt sel =
     (create_initial_state ''buy a USB cable'' ''session-1'' ''https://shop.example/'' 20)
       \<lparr>markers_map := [IntKey 1 \<mapsto> plain_info txt (Some sel) [sel]],
        last_action := Some (click_action 1)\<rparr>"

text \<open>The same document served from an Amazon host.\<close>

definition amazon_page :: page where
  "amazon_page = shop_page\<lparr>url := ''https://www.amazon.com/'', netloc := ''www.amazon.com''\<rparr>"

text \<open>
  Decisions that pass \<open>validate_action\<close>: a scroll, and a type action whose value is
  the number 2.
\<close>

definition scroll_action :: agent_action where
  "scroll_action =
     \<lparr>action = Some (JStr ''scroll''), target = Some JNull, act_value = Some JNull,
      reasoning = Some (JStr ''More results are below'')\<rparr>"

definition type_number_action :: agent_action where
  "type_number_action =
     \<lparr>action = Some (JStr ''type''), target = Some (JInt 1), act_value = Some (JInt 2),
      reasoning = Some (JStr ''The quantity field takes the number of items'')\<rparr>"

text \<open>An oracle whose analyzer and screenshot conversion work, and a cycle with it.\<close>

definition answering :: "(nat \<Rightarrow> agent_action outcome) \<Rightarrow> decision_oracle" where
  "answering g = \<lparr>analyzer_error = None, image_error = None, generate = g\<rparr>"

definition one_cycle :: "page \<Rightarrow> (nat \<Rightarrow> agent_action outcome) \<Rightarrow> cycle_env" where
  "one_cycle pg g = \<lparr>browser = Some pg, vision = answering g\<rparr>"

section \<open>Properties of the safety guard\<close>

lemma requires_approval_check_before_click:
  "requires_approval (fst (check_before_click c u t v txt)) = is_risky_element txt"
  by (simp add: check_before_click_def split: prod.splits)

lemma risky_place_your_order: "\<not> is_risky_element ''Place your order''"
  by (simp add: is_risky_element_def high_risk_keywords_def lower_def lower_char_def)

lemma risky_continue_shopping: "\<not> is_risky_element ''Continue shopping''"
  by (simp add: is_risky_element_def high_risk_keywords_def lower_def lower_char_def)

lemma risky_buy_now: "is_risky_element ''Buy Now''"
  by (simp add: is_risky_element_def high_risk_keywords_def lower_def lower_char_def)

lemma place_your_order_verdict:
  "fst (check_before_click Map.empty u t (Inr (classified True (9 / 10))) ''Place your order'')
     = \<lparr>safe = True, requires_approval = False,
        reason = ''On checkout page but element appears safe'',
        checkout_info = Some (classified True (9 / 10))\<rparr>"
  by (simp add: check_before_click_def is_checkout_page_def risky_place_your_order
        detected_checkout_def detected_confidence_def classified_def)

text \<open>
  Claim C2.  The three test cases of the safety guard, evaluated on the code: on a page
  classified as checkout with confidence 0.9 the text "Place your order" does not
  require approval, since it contains none of the high-risk keywords as a substring
  ("place order" is not a substring of "place your order"); "Continue shopping" at
  confidence 0.9 does not require approval; "Buy Now" at confidence 0.1 does.
\<close>

theorem check_before_click_test_cases:
  "requires_approval (fst (check_before_click Map.empty u t
       (Inr (classified True (9 / 10))) ''Place your order'')) = False
   \<and> requires_approval (fst (check_before_click Map.empty u t
       (Inr (classified True (9 / 10))) ''Continue shopping'')) = False
   \<and> requires_approval (fst (check_before_click Map.empty u t
       (Inr (classified True (1 / 10))) ''Buy Now'')) = True"
  by (simp add: requires_approval_check_before_click risky_place_your_order
        risky_continue_shopping risky_buy_now)

text \<open>
  Claim C5.  For every verdict of \<open>check_before_click\<close>, approval is required if and
  only if the page is classified checkout with confidence above 0.7 and the element
  text matches a risk phrase, or the element text matches a risk phrase whatever the
  classification.  In particular a text that matches no risk phrase never requires
  approval, and a text that matches one always does.
\<close>

theorem requires_approval_iff:
  "(requires_approval (fst (check_before_click c u t v txt))
      \<longleftrightarrow> (detected_checkout (fst (is_checkout_page c u t v))
            \<and> detected_confidence (fst (is_checkout_page c u t v)) > 7 / 10
            \<and> is_risky_element txt)
          \<or> is_risky_element txt)
   \<and> (\<not> is_risky_element txt \<longrightarrow> \<not> requires_approval (fst (check_before_click c u t v txt)))
   \<and> (is_risky_element txt \<longrightarrow> requires_approval (fst (check_before_click c u t v txt)))"
  by (auto simp add: requires_approval_check_before_click)

theorem requires_approval_iff_witness:
  "\<not> requires_approval (fst (check_before_click Map.empty ''u'' 0
        (Inr (classified True (9 / 10))) ''Continue shopping''))
   \<and> requires_approval (fst (check_before_click Map.empty ''u'' 0
        (Inr (classified False (1 / 10))) ''Buy Now''))"
  using requires_approval_iff [of Map.empty "''u''" 0 "Inr (classified True (9 / 10))" "''Continue shopping''"]
        requires_approval_iff [of Map.empty "''u''" 0 "Inr (classified False (1 / 10))" "''Buy Now''"]
        risky_continue_shopping risky_buy_now
  by blast

section \<open>Properties of the target resolver\<close>

lemma try_selectors_step:
  "try_selectors pg (sel # rest) = (if passes_probe pg sel then Some sel else try_selectors pg rest)"
  by (simp add: passes_probe_def split: sum.splits option.splits)

lemma try_selectors_find: "try_selectors pg sels = find (passes_probe pg) sels"
  by (induction sels) (simp_all only: try_selectors.simps(1) try_selectors_step find.simps)

lemma try_selectors_mem: "try_selectors pg sels = Some s \<Longrightarrow> s \<in> set sels"
  by (induction sels) (auto split: sum.splits option.splits if_splits)

lemma try_selectors_none:
  "try_selectors pg sels = None \<longleftrightarrow> (\<forall>sel \<in> set sels. \<not> passes_probe pg sel)"
  by (auto simp: try_selectors_find find_None_iff)

lemma candidate_selectors_cases:
  "s \<in> set (candidate_selectors info) \<Longrightarrow>
     (selectors info \<noteq> [] \<and> s \<in> set (selectors info))
     \<or> (selectors info = [] \<and> selector info = Some s)"
  by (auto simp: candidate_selectors_def split: if_splits option.splits)

lemma get_element_by_marker_candidate:
  "get_element_by_marker pg mm t = Inr (Some s) \<Longrightarrow>
     \<exists>k info. key_of t = Inr (Some k) \<and> mm k = Some info \<and> s \<in> set (candidate_selectors info)"
  by (auto simp: get_element_by_marker_def simp del: try_selectors.simps
           split: option.splits list.splits sum.splits if_splits
           dest!: try_selectors_mem)

lemma get_element_by_marker_none:
  assumes "key_of t = Inr (Some k)" and "mm k = Some info"
  shows "get_element_by_marker pg mm t = Inr None \<longleftrightarrow>
           (\<forall>sel \<in> set (candidate_selectors info). \<not> passes_probe pg sel)
           \<and> (candidate_selectors info = []
              \<or> (\<forall>element. query_selector pg (hd (candidate_selectors info)) \<noteq> Inr (Some element)))"
proof (cases "candidate_selectors info")
  case Nil
  with assms show ?thesis by (simp add: get_element_by_marker_def)
next
  case (Cons first_selector others)
  show ?thesis
  proof (cases "try_selectors pg (first_selector # others)")
    case None
    then have "\<forall>sel \<in> set (first_selector # others). \<not> passes_probe pg sel"
      by (simp only: try_selectors_none)
    with assms Cons None show ?thesis
      by (auto simp: get_element_by_marker_def simp del: try_selectors.simps
            split: sum.splits option.splits)
  next
    case (Some sel)
    then have "find (passes_probe pg) (first_selector # others) = Some sel"
      by (simp only: try_selectors_find)
    then have "\<exists>x \<in> set (first_selector # others). passes_probe pg x"
      by (metis find_Some_iff nth_mem)
    with assms Cons Some show ?thesis
      by (auto simp: get_element_by_marker_def simp del: try_selectors.simps)
  qed
qed

text \<open>
  Claim C7, as stated, fails: the label is in the map, its second candidate selector
  \<open>button.buy\<close> matches an existing (hidden) element, and the resolver returns \<open>None\<close>,
  because the final pass probes the first selector only.
\<close>

theorem resolver_not_found_counterexample:
  "[IntKey 1 \<mapsto> plain_info ''Buy'' (Some ''#gone'') [''#gone'', ''button.buy'']] (IntKey 1)
     = Some (plain_info ''Buy'' (Some ''#gone'') [''#gone'', ''button.buy''])
   \<and> get_element_by_marker hidden_second_page
        [IntKey 1 \<mapsto> plain_info ''Buy'' (Some ''#gone'') [''#gone'', ''button.buy'']] (JInt 1)
       = Inr None
   \<and> ''button.buy'' \<in> set (selectors (plain_info ''Buy'' (Some ''#gone'') [''#gone'', ''button.buy'']))
   \<and> query_selector hidden_second_page ''button.buy'' = Inr (Some (handle False True))"
  by (simp add: get_element_by_marker_def candidate_selectors_def plain_info_def
        hidden_second_page_def unresponsive_page_def handle_def)

text \<open>
  Claim C7, amended.  For a label present in the map the resolver returns \<open>None\<close> if
  and only if no candidate selector of the label passes the probe of the loop (the
  wait returns and the element found is visible and enabled) and the first candidate,
  if there is one, matches no element.  So whenever some candidate passes the probe, or
  the first candidate matches an existing element, visible and interactable or not, a
  selector is returned; the final pass looks at the first candidate only.
\<close>

theorem resolver_not_found_only_if:
  assumes "key_of t = Inr (Some k)" and "mm k = Some info"
  shows "get_element_by_marker pg mm t = Inr None \<longleftrightarrow>
           (\<forall>sel \<in> set (candidate_selectors info). \<not> passes_probe pg sel)
           \<and> (candidate_selectors info = []
              \<or> (\<forall>element. query_selector pg (hd (candidate_selectors info)) \<noteq> Inr (Some element)))"
  using assms by (rule get_element_by_marker_none)

theorem resolver_not_found_only_if_witness:
  "get_element_by_marker hidden_second_page
        [IntKey 1 \<mapsto> plain_info ''Buy'' (Some ''#gone'') [''#gone'', ''button.buy'']] (JInt 1)
     = Inr None
   \<and> \<not> passes_probe hidden_second_page ''#gone''
   \<and> \<not> passes_probe hidden_second_page ''button.buy''
   \<and> query_selector hidden_second_page ''#gone'' = Inr None
   \<and> get_element_by_marker html_page
        [IntKey 1 \<mapsto> plain_info ''Buy'' (Some ''#gone'') [''#gone'', ''html'']] (JInt 1)
       = Inr (Some ''html'')
   \<and> passes_probe html_page ''html''"
proof -
  let ?info = "plain_info ''Buy'' (Some ''#gone'') [''#gone'', ''button.buy'']"
  let ?info' = "plain_info ''Buy'' (Some ''#gone'') [''#gone'', ''html'']"
  have k: "key_of (JInt 1) = Inr (Some (IntKey 1))" by simp
  have m: "[IntKey 1 \<mapsto> ?info] (IntKey 1) = Some ?info" by simp
  have m': "[IntKey 1 \<mapsto> ?info'] (IntKey 1) = Some ?info'" by simp
  have c: "candidate_selectors ?info = [''#gone'', ''button.buy'']"
    by (simp add: candidate_selectors_def plain_info_def)
  have c': "candidate_selectors ?info' = [''#gone'', ''html'']"
    by (simp add: candidate_selectors_def plain_info_def)
  have p: "\<not> passes_probe hidden_second_page ''#gone''"
          "\<not> passes_probe hidden_second_page ''button.buy''"
    by (simp_all add: passes_probe_def hidden_second_page_def unresponsive_page_def)
  have q: "query_selector hidden_second_page ''#gone'' = Inr None"
    by (simp add: hidden_second_page_def unresponsive_page_def)
  have p': "passes_probe html_page ''html''"
    by (simp add: passes_probe_def html_page_def unresponsive_page_def handle_def)
  from resolver_not_found_only_if
         [of "JInt 1" "IntKey 1" "[IntKey 1 \<mapsto> ?info]" ?info hidden_second_page, OF k m] c p q
  have r: "get_element_by_marker hidden_second_page [IntKey 1 \<mapsto> ?info] (JInt 1) = Inr None"
    by simp
  from resolver_not_found_only_if
         [of "JInt 1" "IntKey 1" "[IntKey 1 \<mapsto> ?info']" ?info' html_page, OF k m'] c' p'
  have "get_element_by_marker html_page [IntKey 1 \<mapsto> ?info'] (JInt 1) \<noteq> Inr None"
    by simp
  moreover have "get_element_by_marker html_page [IntKey 1 \<mapsto> ?info'] (JInt 1) = Inr (Some ''html'')"
    by (simp add: get_element_by_marker_def candidate_selectors_def plain_info_def html_page_def
        unresponsive_page_def handle_def)
  ultimately show ?thesis using r p q p' by simp
qed

text \<open>
  Claim C8, as stated, fails: for an entry whose selector list is empty the resolver
  falls back to the entry's single \<open>selector\<close> and returns it, and that selector is not
  an element of the (empty) list.
\<close>

theorem resolver_outside_list_counterexample:
  "get_element_by_marker html_page [IntKey 1 \<mapsto> plain_info [] (Some ''html'') []] (JInt 1)
     = Inr (Some ''html'')
   \<and> ''html'' \<notin> set (selectors (plain_info [] (Some ''html'') []))"
  by (simp add: get_element_by_marker_def candidate_selectors_def plain_info_def html_page_def
        unresponsive_page_def handle_def)

text \<open>
  Claim C8, amended.  Any selector that the resolver returns for a label is an element
  of the label's stored selector list or, when that list is empty, the label's stored
  single selector; the resolver returns nothing else.
\<close>

theorem resolver_returns_candidate:
  assumes "get_element_by_marker pg mm t = Inr (Some s)"
    and "key_of t = Inr (Some k)" and "mm k = Some info"
  shows "(selectors info \<noteq> [] \<and> s \<in> set (selectors info))
         \<or> (selectors info = [] \<and> selector info = Some s)"
  using get_element_by_marker_candidate [OF assms(1)] assms(2,3) candidate_selectors_cases
  by fastforce

theorem resolver_returns_candidate_witness:
  "get_element_by_marker html_page
      [IntKey 1 \<mapsto> plain_info [] (Some ''html'') [''html'', ''#x'']] (JInt 1) = Inr (Some ''html'')
   \<and> ''html'' \<in> set (selectors (plain_info [] (Some ''html'') [''html'', ''#x'']))"
proof -
  let ?info = "plain_info [] (Some ''html'') [''html'', ''#x'']"
  have r: "get_element_by_marker html_page [IntKey 1 \<mapsto> ?info] (JInt 1) = Inr (Some ''html'')"
    by (simp add: get_element_by_marker_def candidate_selectors_def plain_info_def html_page_def
        unresponsive_page_def handle_def)
  have k: "key_of (JInt 1) = Inr (Some (IntKey 1))" by simp
  have m: "[IntKey 1 \<mapsto> ?info] (IntKey 1) = Some ?info"
    by simp
  from resolver_returns_candidate
         [of html_page "[IntKey 1 \<mapsto> ?info]" "JInt 1" "''html''" "IntKey 1" ?info, OF r k m] r
  show ?thesis
    by (auto simp: plain_info_def)
qed

section \<open>Properties of the element registry\<close>

lemma mark_elements_labels:
  "map fst (mark_elements pg es k processed) = [k ..< k + length (mark_elements pg es k processed)]"
proof (induction es arbitrary: k processed)
  case Nil
  then show ?case by simp
next
  case (Cons e es)
  show ?case
  proof (cases "node e \<notin> set processed \<and> isVisible pg e")
    case True
    let ?rest = "mark_elements pg es (Suc k) (node e # processed)"
    from True have step: "mark_elements pg (e # es) k processed = (k, element_entry pg e) # ?rest"
      by simp
    have ih: "map fst ?rest = [Suc k ..< Suc k + length ?rest]"
      by (rule Cons.IH)
    have "[k ..< k + Suc (length ?rest)] = k # [Suc k ..< Suc k + length ?rest]"
      by (subst upt_rec) simp
    with step ih show ?thesis by simp
  next
    case False
    then have "mark_elements pg (e # es) k processed = mark_elements pg es k processed"
      by auto
    then show ?thesis using Cons.IH by simp
  qed
qed

lemma mark_elements_entries:
  "distinct (map node es) \<Longrightarrow> node ` set es \<inter> set processed = {} \<Longrightarrow>
     map snd (mark_elements pg es k processed) = map (element_entry pg) (filter (isVisible pg) es)"
proof (induction es arbitrary: k processed)
  case Nil
  then show ?case by simp
next
  case (Cons e es)
  from Cons.prems have fresh: "node e \<notin> set processed" by auto
  from Cons.prems have d: "distinct (map node es)" and n: "node e \<notin> node ` set es" by auto
  show ?case
  proof (cases "isVisible pg e")
    case True
    from Cons.prems n have "node ` set es \<inter> set (node e # processed) = {}" by auto
    from Cons.IH [OF d this] True fresh show ?thesis by simp
  next
    case False
    from Cons.prems have "node ` set es \<inter> set processed = {}" by auto
    from Cons.IH [OF d this] False fresh show ?thesis by simp
  qed
qed

lemma markers_script_labels:
  "map fst (markers_script pg) = [1 ..< Suc (length (markers_script pg))]"
  using mark_elements_labels [of pg "interactive_elements pg" 1 "[]"]
  by (simp add: markers_script_def del: upt_Suc)

lemma markers_script_entries:
  "distinct (map node (interactive_elements pg)) \<Longrightarrow>
     map snd (markers_script pg)
       = map (element_entry pg) (filter (isVisible pg) (interactive_elements pg))"
  by (simp add: markers_script_def mark_elements_entries)

text \<open>\<open>int(s)\<close> reads the numeral of a label back.\<close>

lemma digit_value_digit_char: "d < 10 \<Longrightarrow> digit_value (digit_char d) = d"
proof -
  assume "d < 10"
  then have "d \<in> {0, 1, 2, 3, 4, 5, 6, 7, 8, 9}" by auto
  then show ?thesis
    by (auto simp: digit_value_def digit_char_def upt_rec)
qed

lemma foldl_str_nat: "foldl (\<lambda>n c. 10 * n + digit_value c) 0 (str_nat n) = n"
proof (induction n rule: str_nat.induct)
  case (1 n)
  show ?case
  proof (cases "n < 10")
    case True
    then show ?thesis
      by (subst str_nat.simps) (simp add: digit_value_digit_char)
  next
    case False
    with 1 have "foldl (\<lambda>n c. 10 * n + digit_value c) 0 (str_nat (n div 10)) = n div 10"
      by simp
    with False show ?thesis
      by (subst str_nat.simps) (simp add: digit_value_digit_char)
  qed
qed

lemma int_of_str_str_nat: "int_of_str (str_nat n) = int n"
  by (simp add: int_of_str_def foldl_str_nat)

lemma inj_str_nat: "inj str_nat"
proof (rule injI)
  fix x y assume "str_nat x = str_nat y"
  then have "int_of_str (str_nat x) = int_of_str (str_nat y)" by simp
  then show "x = y" by (simp add: int_of_str_str_nat)
qed

text \<open>The keys of a dictionary built from the labelled entries, and its lookups.\<close>

lemma dom_keyed:
  "dom (map_of (map (\<lambda>(n, info). (key n, f info)) ms)) = key ` set (map fst ms)"
  by (force simp: dom_map_of_conv_image_fst image_image split_def)

lemma keyed_lookup:
  assumes "map fst ms = [1 ..< Suc (length ms)]" and "i < length ms" and "inj key"
  shows "map_of (map (\<lambda>(n, info). (key n, f info)) ms) (key (Suc i)) = Some (f (snd (ms ! i)))"
proof -
  let ?xs = "map (\<lambda>(n, info). (key n, f info)) ms"
  have fs: "map fst ?xs = map key (map fst ms)"
    by (simp add: split_def comp_def)
  have "distinct (map fst ms)"
    by (subst assms(1)) (rule distinct_upt)
  then have "distinct (map fst ?xs)"
    unfolding fs using assms(3) by (simp add: distinct_map inj_on_def inj_def del: map_map)
  moreover have "fst (ms ! i) = Suc i"
  proof -
    have "fst (ms ! i) = map fst ms ! i" using assms(2) by simp
    also have "\<dots> = [1 ..< Suc (length ms)] ! i" by (simp only: assms(1))
    also have "\<dots> = Suc i" using assms(2) by (simp del: upt_Suc)
    finally show ?thesis .
  qed
  then have "(key (Suc i), f (snd (ms ! i))) \<in> set ?xs"
    using assms(2) by (force simp: in_set_conv_nth split_def)
  ultimately show ?thesis by (rule map_of_is_SomeI)
qed

lemma evaluated_as:
  "map (\<lambda>(marker_num, info). (key marker_num, f info)) (evaluate_markers_script pg)
     = map (\<lambda>(n, info). (key (str_nat n), f info)) (markers_script pg)"
  by (simp add: evaluate_markers_script_def split_def comp_def)

lemma inject_markers_amazon:
  assumes "script_error pg = None" and "is_amazon_url (netloc pg)"
  shows "inject_markers pg
           = map_of (map (\<lambda>(n, info). (IntKey (int n),
                            enhance_element_with_amazon_selectors info (netloc pg)))
                         (markers_script pg))"
  using assms
  by (simp add: inject_markers_def evaluate_markers_script_def split_def comp_def
        int_of_str_str_nat)

lemma inject_markers_other:
  assumes "script_error pg = None" and "\<not> is_amazon_url (netloc pg)"
  shows "inject_markers pg
           = map_of (map (\<lambda>(n, info). (StrKey (str_nat n), info)) (markers_script pg))"
  using assms
  by (simp add: inject_markers_def evaluate_markers_script_def split_def comp_def)

lemma labels_set: "set (map fst (markers_script pg)) = {1 .. length (markers_script pg)}"
proof -
  have "set (map fst (markers_script pg)) = set [1 ..< Suc (length (markers_script pg))]"
    by (simp only: markers_script_labels [symmetric])
  also have "\<dots> = {1 .. length (markers_script pg)}"
    by (simp only: set_upt) auto
  finally show ?thesis .
qed

lemma dom_inject_markers_amazon:
  assumes "script_error pg = None" and "is_amazon_url (netloc pg)"
  shows "dom (inject_markers pg) = IntKey ` {1 .. int (length (markers_script pg))}"
proof -
  have "dom (inject_markers pg) = (\<lambda>n. IntKey (int n)) ` set (map fst (markers_script pg))"
    by (simp only: inject_markers_amazon [OF assms] dom_keyed)
  also have "\<dots> = IntKey ` int ` {1 .. length (markers_script pg)}"
    by (simp only: labels_set image_image)
  also have "int ` {1 .. length (markers_script pg)} = {1 .. int (length (markers_script pg))}"
    by (simp add: image_int_atLeastAtMost)
  finally show ?thesis .
qed

lemma dom_inject_markers_other:
  assumes "script_error pg = None" and "\<not> is_amazon_url (netloc pg)"
  shows "dom (inject_markers pg) = StrKey ` str_nat ` {1 .. length (markers_script pg)}"
proof -
  have "dom (inject_markers pg) = (\<lambda>n. StrKey (str_nat n)) ` set (map fst (markers_script pg))"
    by (simp only: inject_markers_other [OF assms] dom_keyed [where f = "\<lambda>info. info"])
  also have "\<dots> = StrKey ` str_nat ` {1 .. length (markers_script pg)}"
    by (simp only: labels_set image_image)
  finally show ?thesis .
qed

lemma inject_markers_lookup_amazon:
  assumes "script_error pg = None" and "is_amazon_url (netloc pg)"
    and "i < length (markers_script pg)"
  shows "inject_markers pg (IntKey (int i + 1))
           = Some (enhance_element_with_amazon_selectors (snd (markers_script pg ! i)) (netloc pg))"
proof -
  have "inj (\<lambda>n. IntKey (int n))" by (simp add: inj_def)
  from keyed_lookup [OF markers_script_labels assms(3) this,
         of "\<lambda>info. enhance_element_with_amazon_selectors info (netloc pg)"]
  show ?thesis
    by (simp add: inject_markers_amazon [OF assms(1,2)] add.commute)
qed

lemma inject_markers_lookup_other:
  assumes "script_error pg = None" and "\<not> is_amazon_url (netloc pg)"
    and "i < length (markers_script pg)"
  shows "inject_markers pg (StrKey (str_nat (i + 1))) = Some (snd (markers_script pg ! i))"
proof -
  have "inj (\<lambda>n. StrKey (str_nat n))"
    using inj_str_nat by (simp add: inj_def)
  from keyed_lookup [OF markers_script_labels assms(3) this, of "\<lambda>info. info"]
  show ?thesis
    by (simp add: inject_markers_other [OF assms(1,2)])
qed

lemma inject_markers_no_integer_key:
  assumes "\<not> is_amazon_url (netloc pg)"
  shows "inject_markers pg (IntKey n) = None"
proof (cases "script_error pg")
  case None
  have "IntKey n \<notin> dom (inject_markers pg)"
    by (simp only: dom_inject_markers_other [OF None assms]) auto
  then show ?thesis by auto
next
  case (Some e)
  then show ?thesis by (simp add: inject_markers_def)
qed

lemma integer_target_not_found:
  "mm (IntKey n) = None \<Longrightarrow> get_element_by_marker pg mm (JInt n) = Inr None"
  by (simp add: get_element_by_marker_def)

lemma inject_markers_keys:
  assumes "script_error pg = None" and "distinct (map node (interactive_elements pg))"
  shows "(is_amazon_url (netloc pg) \<longrightarrow>
            dom (inject_markers pg)
              = IntKey ` {1 .. int (length (filter (isVisible pg) (interactive_elements pg)))}
            \<and> (\<forall>i < length (filter (isVisible pg) (interactive_elements pg)).
                 inject_markers pg (IntKey (int i + 1))
                   = Some (enhance_element_with_amazon_selectors
                             (element_entry pg (filter (isVisible pg) (interactive_elements pg) ! i))
                             (netloc pg))))
       \<and> (\<not> is_amazon_url (netloc pg) \<longrightarrow>
            dom (inject_markers pg)
              = StrKey ` str_nat ` {1 .. length (filter (isVisible pg) (interactive_elements pg))}
            \<and> (\<forall>i < length (filter (isVisible pg) (interactive_elements pg)).
                 inject_markers pg (StrKey (str_nat (i + 1)))
                   = Some (element_entry pg (filter (isVisible pg) (interactive_elements pg) ! i)))
            \<and> (\<forall>n. inject_markers pg (IntKey n) = None)
            \<and> (\<forall>n pg'. get_element_by_marker pg' (inject_markers pg) (JInt n) = Inr None))"
proof -
  let ?acc = "filter (isVisible pg) (interactive_elements pg)"
  have e: "map snd (markers_script pg) = map (element_entry pg) ?acc"
    using assms(2) by (rule markers_script_entries)
  then have l: "length (markers_script pg) = length ?acc"
    by (metis length_map)
  have entry: "snd (markers_script pg ! i) = element_entry pg (?acc ! i)" if "i < length ?acc" for i
  proof -
    have "snd (markers_script pg ! i) = map snd (markers_script pg) ! i"
      using that l by simp
    also have "\<dots> = element_entry pg (?acc ! i)"
      using that by (simp only: e nth_map)
    finally show ?thesis .
  qed
  show ?thesis
  proof (intro conjI impI allI)
    assume a: "is_amazon_url (netloc pg)"
    show "dom (inject_markers pg) = IntKey ` {1 .. int (length ?acc)}"
      using dom_inject_markers_amazon [OF assms(1) a] by (simp only: l)
    fix i assume i: "i < length ?acc"
    then have "i < length (markers_script pg)" by (simp only: l)
    from inject_markers_lookup_amazon [OF assms(1) a this]
    show "inject_markers pg (IntKey (int i + 1))
            = Some (enhance_element_with_amazon_selectors (element_entry pg (?acc ! i)) (netloc pg))"
      by (simp only: entry [OF i])
  next
    assume a: "\<not> is_amazon_url (netloc pg)"
    show "dom (inject_markers pg) = StrKey ` str_nat ` {1 .. length ?acc}"
      using dom_inject_markers_other [OF assms(1) a] by (simp only: l)
    show "inject_markers pg (IntKey n) = None" for n
      using a by (rule inject_markers_no_integer_key)
    then show "get_element_by_marker pg' (inject_markers pg) (JInt n) = Inr None" for n pg'
      by (rule integer_target_not_found)
    fix i assume i: "i < length ?acc"
    then have "i < length (markers_script pg)" by (simp only: l)
    from inject_markers_lookup_other [OF assms(1) a this]
    show "inject_markers pg (StrKey (str_nat (i + 1))) = Some (element_entry pg (?acc ! i))"
      by (simp only: entry [OF i])
  qed
qed

lemma shop_page_accepted:
  "filter (isVisible shop_page) (interactive_elements shop_page)
     = [element_at 1 ''INPUT'' ''search'' [] 20 ''block'',
        element_at 3 ''BUTTON'' ''cart'' ''Add to Cart'' 100 ''block'']"
  by (simp add: shop_page_def unresponsive_page_def isVisible_def element_at_def)

lemma shop_page_not_amazon: "\<not> is_amazon_url (netloc shop_page)"
  by (simp add: shop_page_def unresponsive_page_def is_amazon_url_def amazon_domains_def
        endswith_def lower_def lower_char_def)

lemma amazon_page_accepted:
  "filter (isVisible amazon_page) (interactive_elements amazon_page)
     = [element_at 1 ''INPUT'' ''search'' [] 20 ''block'',
        element_at 3 ''BUTTON'' ''cart'' ''Add to Cart'' 100 ''block'']"
  by (simp add: amazon_page_def shop_page_def unresponsive_page_def isVisible_def element_at_def)

lemma amazon_page_amazon: "is_amazon_url (netloc amazon_page)"
  by (simp add: amazon_page_def is_amazon_url_def amazon_domains_def
        endswith_def lower_def lower_char_def)

lemma selector_element_at:
  "selector (element_entry pg (element_at n tag ident txt y disp)) = Some (''#'' @ ident)"
  if "ident \<noteq> []"
  using that by (simp add: element_entry_def element_selectors_def element_at_def Let_def)

lemma first_numerals: "str_nat (Suc 0) = ''1''" "str_nat (Suc (Suc 0)) = ''2''"
  by (simp_all add: str_nat.simps digit_char_def)

lemma first_labels:
  "{Suc 0 .. Suc (Suc 0)} = {Suc 0, Suc (Suc 0)}" "{1 .. 2::int} = {1, 2}"
  by auto

text \<open>
  Claim C9.  When the script raises, the map is empty.  When it runs and the elements
  found on the page are pairwise different, one \<open>inject_markers\<close> call labels the \<open>N\<close>
  elements accepted as visible in document order.  On an Amazon page the keys of the
  map are the integers from 1 to \<open>N\<close>, each once, and key \<open>i + 1\<close> holds the
  (enhanced) entry of the \<open>i\<close>-th accepted element.  On any other page the keys are
  the numerals \<open>"1"\<close> to \<open>"N"\<close> as strings: no integer is a key of the map, and the
  resolver finds no element for any integer target.
\<close>

theorem registry_labels_keys:
  "(script_error pg \<noteq> None \<longrightarrow> inject_markers pg = Map.empty)
   \<and> (script_error pg = None \<and> distinct (map node (interactive_elements pg)) \<longrightarrow>
       (is_amazon_url (netloc pg) \<longrightarrow>
            dom (inject_markers pg)
              = IntKey ` {1 .. int (length (filter (isVisible pg) (interactive_elements pg)))}
            \<and> (\<forall>i < length (filter (isVisible pg) (interactive_elements pg)).
                 inject_markers pg (IntKey (int i + 1))
                   = Some (enhance_element_with_amazon_selectors
                             (element_entry pg (filter (isVisible pg) (interactive_elements pg) ! i))
                             (netloc pg))))
       \<and> (\<not> is_amazon_url (netloc pg) \<longrightarrow>
            dom (inject_markers pg)
              = StrKey ` str_nat ` {1 .. length (filter (isVisible pg) (interactive_elements pg))}
            \<and> (\<forall>i < length (filter (isVisible pg) (interactive_elements pg)).
                 inject_markers pg (StrKey (str_nat (i + 1)))
                   = Some (element_entry pg (filter (isVisible pg) (interactive_elements pg) ! i)))
            \<and> (\<forall>n. inject_markers pg (IntKey n) = None)
            \<and> (\<forall>n pg'. get_element_by_marker pg' (inject_markers pg) (JInt n) = Inr None)))"
proof (rule conjI)
  show "script_error pg \<noteq> None \<longrightarrow> inject_markers pg = Map.empty"
    by (auto simp: inject_markers_def)
next
  show "script_error pg = None \<and> distinct (map node (interactive_elements pg)) \<longrightarrow>
       (is_amazon_url (netloc pg) \<longrightarrow>
            dom (inject_markers pg)
              = IntKey ` {1 .. int (length (filter (isVisible pg) (interactive_elements pg)))}
            \<and> (\<forall>i < length (filter (isVisible pg) (interactive_elements pg)).
                 inject_markers pg (IntKey (int i + 1))
                   = Some (enhance_element_with_amazon_selectors
                             (element_entry pg (filter (isVisible pg) (interactive_elements pg) ! i))
                             (netloc pg))))
       \<and> (\<not> is_amazon_url (netloc pg) \<longrightarrow>
            dom (inject_markers pg)
              = StrKey ` str_nat ` {1 .. length (filter (isVisible pg) (interactive_elements pg))}
            \<and> (\<forall>i < length (filter (isVisible pg) (interactive_elements pg)).
                 inject_markers pg (StrKey (str_nat (i + 1)))
                   = Some (element_entry pg (filter (isVisible pg) (interactive_elements pg) ! i)))
            \<and> (\<forall>n. inject_markers pg (IntKey n) = None)
            \<and> (\<forall>n pg'. get_element_by_marker pg' (inject_markers pg) (JInt n) = Inr None))"
  proof
    assume a: "script_error pg = None \<and> distinct (map node (interactive_elements pg))"
    from a have h1: "script_error pg = None" by (rule conjunct1)
    from a have h2: "distinct (map node (interactive_elements pg))" by (rule conjunct2)
    from h1 h2 show "(is_amazon_url (netloc pg) \<longrightarrow>
            dom (inject_markers pg)
              = IntKey ` {1 .. int (length (filter (isVisible pg) (interactive_elements pg)))}
            \<and> (\<forall>i < length (filter (isVisible pg) (interactive_elements pg)).
                 inject_markers pg (IntKey (int i + 1))
                   = Some (enhance_element_with_amazon_selectors
                             (element_entry pg (filter (isVisible pg) (interactive_elements pg) ! i))
                             (netloc pg))))
       \<and> (\<not> is_amazon_url (netloc pg) \<longrightarrow>
            dom (inject_markers pg)
              = StrKey ` str_nat ` {1 .. length (filter (isVisible pg) (interactive_elements pg))}
            \<and> (\<forall>i < length (filter (isVisible pg) (interactive_elements pg)).
                 inject_markers pg (StrKey (str_nat (i + 1)))
                   = Some (element_entry pg (filter (isVisible pg) (interactive_elements pg) ! i)))
            \<and> (\<forall>n. inject_markers pg (IntKey n) = None)
            \<and> (\<forall>n pg'. get_element_by_marker pg' (inject_markers pg) (JInt n) = Inr None))"
      by (rule inject_markers_keys)
  qed
qed

theorem registry_labels_keys_witness:
  "inject_markers (shop_page\<lparr>script_error := Some ''Execution context was destroyed''\<rparr>)
     = Map.empty
   \<and> dom (inject_markers shop_page) = {StrKey ''1'', StrKey ''2''}
   \<and> map_option selector (inject_markers shop_page (StrKey ''1'')) = Some (Some ''#search'')
   \<and> map_option selector (inject_markers shop_page (StrKey ''2'')) = Some (Some ''#cart'')
   \<and> inject_markers shop_page (IntKey 1) = None
   \<and> get_element_by_marker (present_page ''#search'') (inject_markers shop_page) (JInt 1) = Inr None
   \<and> dom (inject_markers amazon_page) = {IntKey 1, IntKey 2}"
proof -
  have h: "script_error shop_page = None" "distinct (map node (interactive_elements shop_page))"
    by (simp_all add: shop_page_def unresponsive_page_def element_at_def)
  have h': "script_error amazon_page = None" "distinct (map node (interactive_elements amazon_page))"
    by (simp_all add: amazon_page_def shop_page_def unresponsive_page_def element_at_def)
  note u = registry_labels_keys [of shop_page, THEN conjunct2, rule_format, OF conjI [OF h]]
  note u' = registry_labels_keys [of amazon_page, THEN conjunct2, rule_format, OF conjI [OF h']]
  note t = u [THEN conjunct2, rule_format, OF shop_page_not_amazon]
  note t' = u' [THEN conjunct1, rule_format, OF amazon_page_amazon]
  from t have d: "dom (inject_markers shop_page) = {StrKey ''1'', StrKey ''2''}"
    by (simp add: shop_page_accepted first_labels first_numerals)
  from t have a: "\<forall>i<2. inject_markers shop_page (StrKey (str_nat (i + 1)))
      = Some (element_entry shop_page
                ([element_at 1 ''INPUT'' ''search'' [] 20 ''block'',
                  element_at 3 ''BUTTON'' ''cart'' ''Add to Cart'' 100 ''block''] ! i))"
    by (simp add: shop_page_accepted)
  have "inject_markers shop_page (StrKey ''1'')
               = Some (element_entry shop_page (element_at 1 ''INPUT'' ''search'' [] 20 ''block''))"
    using a [rule_format, of 0] by (simp add: first_numerals)
  moreover have "inject_markers shop_page (StrKey ''2'')
               = Some (element_entry shop_page (element_at 3 ''BUTTON'' ''cart'' ''Add to Cart'' 100 ''block''))"
    using a [rule_format, of 1] by (simp add: first_numerals)
  ultimately have s: "map_option selector (inject_markers shop_page (StrKey ''1'')) = Some (Some ''#search'')
      \<and> map_option selector (inject_markers shop_page (StrKey ''2'')) = Some (Some ''#cart'')"
    by (simp add: selector_element_at)
  from t have n: "inject_markers shop_page (IntKey 1) = None
      \<and> get_element_by_marker (present_page ''#search'') (inject_markers shop_page) (JInt 1) = Inr None"
    by simp
  from t' have d': "dom (inject_markers amazon_page) = {IntKey 1, IntKey 2}"
    by (simp add: amazon_page_accepted first_labels)
  from registry_labels_keys
         [of "shop_page\<lparr>script_error := Some ''Execution context was destroyed''\<rparr>",
          THEN conjunct1]
  have z: "inject_markers (shop_page\<lparr>script_error := Some ''Execution context was destroyed''\<rparr>)
             = Map.empty"
    by simp
  from z d s n d' show ?thesis
    by simp
qed

section \<open>Properties of the action executor\<close>

lemma execute_click_frame:
  "action_history (fst (execute_click pg s c t)) = action_history s
   \<and> iterations (fst (execute_click pg s c t)) = iterations s
   \<and> max_iterations (fst (execute_click pg s c t)) = max_iterations s
   \<and> status (fst (execute_click pg s c t)) = status s
   \<and> error (fst (execute_click pg s c t)) = error s
   \<and> markers_map (fst (execute_click pg s c t)) = markers_map s"
  by (simp add: execute_click_def add_message_def split: sum.splits option.splits prod.splits)

lemma execute_type_frame:
  "action_history (fst (execute_type pg s t v)) = action_history s
   \<and> iterations (fst (execute_type pg s t v)) = iterations s
   \<and> max_iterations (fst (execute_type pg s t v)) = max_iterations s
   \<and> status (fst (execute_type pg s t v)) = status s
   \<and> error (fst (execute_type pg s t v)) = error s"
  by (simp add: execute_type_def add_message_def split: sum.splits option.splits prod.splits)

lemma execute_scroll_frame:
  "action_history (fst (execute_scroll pg s)) = action_history s
   \<and> iterations (fst (execute_scroll pg s)) = iterations s
   \<and> max_iterations (fst (execute_scroll pg s)) = max_iterations s
   \<and> status (fst (execute_scroll pg s)) = status s
   \<and> error (fst (execute_scroll pg s)) = error s"
  by (simp add: execute_scroll_def add_message_def)


lemma element_text_of_status [simp]:
  "element_text_of (set_status s st) t = element_text_of s t"
  by (simp add: element_text_of_def set_status_def cong: option.case_cong sum.case_cong)





lemma action_node_logged:
  assumes "last_action s = Some a" and "log_error (get_or (act_value a) JNull) = None"
  shows "action_node (Some pg) (s, c)
           = (let s1 = set_status s Executing;
                  r = (if get_or (action a) JNull = JStr ''click''
                       then execute_click pg s1 c (get_or (target a) JNull)
                       else if get_or (action a) JNull = JStr ''type''
                       then (fst (execute_type pg s1 (get_or (target a) JNull)
                                    (get_or (act_value a) JNull)), c,
                             snd (execute_type pg s1 (get_or (target a) JNull)
                                    (get_or (act_value a) JNull)))
                       else if get_or (action a) JNull = JStr ''scroll''
                       then (fst (execute_scroll pg s1), c, snd (execute_scroll pg s1))
                       else if get_or (action a) JNull = JStr ''done''
                       then (set_status s1 Complete, c, [])
                       else (s1, c, []))
              in (increment_iteration (add_action (fst r) a), fst (snd r), snd (snd r)))"
  using assms by (simp add: action_node_def split_beta Let_def set_status_def)

lemma action_node_log_raises:
  assumes "last_action s = Some a" and "log_error (get_or (act_value a) JNull) = Some e"
  shows "action_node (Some pg) (s, c)
           = (set_error (set_status s Executing) (''Action execution failed: '' @ e), c, [])"
  using assms by (simp add: action_node_def Let_def set_status_def)





text \<open>
  Claim C10.  When the action node has an action to execute and its log line does not
  raise, it appends exactly that one action to \<open>action_history\<close> and adds exactly 1
  to the iteration counter, whatever the kind of the action and whether it succeeds or
  fails.  When the value of the action is truthy and cannot be sliced, the log line
  raises before the action is dispatched: nothing is appended to the history, the
  counter keeps its value, no command reaches the page, and the state is left with
  status \<open>error\<close>.  The witness runs the click whose standard and script strategies
  fail and whose forced strategy succeeds (one history entry, one success message,
  three click commands), and the type action with the value 2, which
  \<open>validate_action\<close> accepts and the oracle's result is returned for.
\<close>

theorem action_node_history:
  assumes "last_action s = Some a"
  shows "(log_error (get_or (act_value a) JNull) = None \<longrightarrow>
            action_history (fst (action_node (Some pg) (s, c))) = action_history s @ [a]
            \<and> iterations (fst (action_node (Some pg) (s, c))) = iterations s + 1
            \<and> last_action (fst (action_node (Some pg) (s, c))) = Some a)
       \<and> (\<forall>e. log_error (get_or (act_value a) JNull) = Some e \<longrightarrow>
            action_history (fst (action_node (Some pg) (s, c))) = action_history s
            \<and> iterations (fst (action_node (Some pg) (s, c))) = iterations s
            \<and> status (fst (action_node (Some pg) (s, c))) = Error
            \<and> error (fst (action_node (Some pg) (s, c)))
                = Some (''Action execution failed: '' @ e)
            \<and> snd (snd (action_node (Some pg) (s, c))) = [])"
proof (intro conjI impI allI)
  assume l: "log_error (get_or (act_value a) JNull) = None"
  note n = action_node_logged [OF assms l, of pg c]
  note f = execute_click_frame [of pg "set_status s Executing" c "get_or (target a) JNull"]
    execute_type_frame [of pg "set_status s Executing" "get_or (target a) JNull"
      "get_or (act_value a) JNull"]
    execute_scroll_frame [of pg "set_status s Executing"]
  show "action_history (fst (action_node (Some pg) (s, c))) = action_history s @ [a]"
    using f by (simp add: n Let_def increment_iteration_def add_action_def set_status_def)
  show "iterations (fst (action_node (Some pg) (s, c))) = iterations s + 1"
    using f by (simp add: n Let_def increment_iteration_def add_action_def set_status_def)
  show "last_action (fst (action_node (Some pg) (s, c))) = Some a"
    by (simp add: n Let_def increment_iteration_def add_action_def)
next
  fix e assume l: "log_error (get_or (act_value a) JNull) = Some e"
  note n = action_node_log_raises [OF assms l, of pg c]
  show "action_history (fst (action_node (Some pg) (s, c))) = action_history s"
    by (simp add: n set_error_def set_status_def)
  show "iterations (fst (action_node (Some pg) (s, c))) = iterations s"
    by (simp add: n set_error_def set_status_def)
  show "status (fst (action_node (Some pg) (s, c))) = Error"
    by (simp add: n set_error_def)
  show "error (fst (action_node (Some pg) (s, c))) = Some (''Action execution failed: '' @ e)"
    by (simp add: n set_error_def)
  show "snd (snd (action_node (Some pg) (s, c))) = []"
    by (simp add: n)
qed

lemma stubborn_resolves:
  "get_element_by_marker stubborn_page (markers_map (planned_state ''Next page'' ''#next'')) (JInt 1)
     = Inr (Some ''#next'')"
  by (simp add: get_element_by_marker_def candidate_selectors_def planned_state_def
        create_initial_state_def plain_info_def stubborn_page_def present_page_def
        unresponsive_page_def handle_def)

lemma risky_next_page: "\<not> is_risky_element ''Next page''"
  by (simp add: is_risky_element_def high_risk_keywords_def lower_def lower_char_def)

lemma stubborn_strategies:
  "click_strategies stubborn_page ''#next''
     = (None, [Click ''#next'', ScriptClick ''#next'', ForceClick ''#next''])"
  by (simp add: click_strategies_def stubborn_page_def present_page_def unresponsive_page_def)

lemma stubborn_click:
  "execute_click stubborn_page (set_status (planned_state ''Next page'' ''#next'') Executing)
       Map.empty (JInt 1)
     = (add_message (set_status (planned_state ''Next page'' ''#next'') Executing) (Clicked (JInt 1)),
        snd (check_before_click Map.empty (url stubborn_page) (time_now stubborn_page)
               (detect_checkout_page stubborn_page) ''Next page''),
        [Click ''#next'', ScriptClick ''#next'', ForceClick ''#next''])"
proof -
  have t: "element_text_of (planned_state ''Next page'' ''#next'') (JInt 1) = ''Next page''"
    by (simp add: element_text_of_def planned_state_def create_initial_state_def plain_info_def)
  have r: "get_element_by_marker stubborn_page
             (markers_map (set_status (planned_state ''Next page'' ''#next'') Executing)) (JInt 1)
             = Inr (Some ''#next'')"
    using stubborn_resolves by (simp add: set_status_def)
  show ?thesis
    by (simp add: execute_click_def r t split_beta requires_approval_check_before_click
          risky_next_page stubborn_strategies)
qed

lemma type_number_accepted:
  "validate_action type_number_action
   \<and> analyze_page (answering (\<lambda>i. Inr type_number_action)) = type_number_action"
  by (simp add: validate_action_def type_number_action_def get_or_def analyze_page_def
        answering_def attempt_once_def max_retries_def numeral_3_eq_3)

theorem action_node_history_witness:
  "action_history (fst (action_node (Some stubborn_page)
        (planned_state ''Next page'' ''#next'', Map.empty))) = [click_action 1]
   \<and> iterations (fst (action_node (Some stubborn_page)
        (planned_state ''Next page'' ''#next'', Map.empty))) = 1
   \<and> last (messages (fst (action_node (Some stubborn_page)
        (planned_state ''Next page'' ''#next'', Map.empty)))) = Clicked (JInt 1)
   \<and> snd (snd (action_node (Some stubborn_page)
        (planned_state ''Next page'' ''#next'', Map.empty)))
      = [Click ''#next'', ScriptClick ''#next'', ForceClick ''#next'']
   \<and> validate_action type_number_action
   \<and> analyze_page (answering (\<lambda>i. Inr type_number_action)) = type_number_action
   \<and> action_history (fst (action_node (Some (present_page ''#qty''))
        ((planned_state ''Quantity'' ''#qty'')\<lparr>last_action := Some type_number_action\<rparr>,
         Map.empty))) = []
   \<and> iterations (fst (action_node (Some (present_page ''#qty''))
        ((planned_state ''Quantity'' ''#qty'')\<lparr>last_action := Some type_number_action\<rparr>,
         Map.empty))) = 0
   \<and> status (fst (action_node (Some (present_page ''#qty''))
        ((planned_state ''Quantity'' ''#qty'')\<lparr>last_action := Some type_number_action\<rparr>,
         Map.empty))) = Error"
proof -
  let ?s = "planned_state ''Next page'' ''#next''"
  let ?q = "(planned_state ''Quantity'' ''#qty'')\<lparr>last_action := Some type_number_action\<rparr>"
  have a: "last_action ?s = Some (click_action 1)"
    by (simp add: planned_state_def)
  have l: "log_error (get_or (act_value (click_action 1)) JNull) = None"
    by (simp add: click_action_def get_or_def log_error_def)
  have h: "action_history ?s = [] \<and> iterations ?s = 0"
    by (simp add: planned_state_def create_initial_state_def)
  have n: "action_node (Some stubborn_page) (?s, Map.empty)
      = (increment_iteration (add_action
           (add_message (set_status ?s Executing) (Clicked (JInt 1))) (click_action 1)),
         snd (check_before_click Map.empty (url stubborn_page) (time_now stubborn_page)
               (detect_checkout_page stubborn_page) ''Next page''),
         [Click ''#next'', ScriptClick ''#next'', ForceClick ''#next''])"
    using stubborn_click
    by (simp add: action_node_logged [OF a l] Let_def)
       (simp add: click_action_def get_or_def)
  from action_node_history [OF a, of stubborn_page Map.empty] l h
  have first: "action_history (fst (action_node (Some stubborn_page) (?s, Map.empty)))
          = [click_action 1]
        \<and> iterations (fst (action_node (Some stubborn_page) (?s, Map.empty))) = 1"
    by simp
  have m: "last (messages (fst (action_node (Some stubborn_page) (?s, Map.empty))))
             = Clicked (JInt 1)"
    by (simp add: n increment_iteration_def add_action_def add_message_def)
  have ev: "snd (snd (action_node (Some stubborn_page) (?s, Map.empty)))
      = [Click ''#next'', ScriptClick ''#next'', ForceClick ''#next'']"
    by (simp add: n)
  have a': "last_action ?q = Some type_number_action"
    by simp
  have l': "log_error (get_or (act_value type_number_action) JNull)
              = Some (quoted ''int'' @ '' object is not subscriptable'')"
    by (simp add: type_number_action_def get_or_def log_error_def)
  have h': "action_history ?q = [] \<and> iterations ?q = 0"
    by (simp add: planned_state_def create_initial_state_def)
  from action_node_history [OF a', of "present_page ''#qty''" Map.empty] l' h'
  have second: "action_history (fst (action_node (Some (present_page ''#qty'')) (?q, Map.empty))) = []
        \<and> iterations (fst (action_node (Some (present_page ''#qty'')) (?q, Map.empty))) = 0
        \<and> status (fst (action_node (Some (present_page ''#qty'')) (?q, Map.empty))) = Error"
    by simp
  from first m ev type_number_accepted second show ?thesis
    by simp
qed

section \<open>Properties of the decision oracle\<close>

lemma retry_all_fail:
  assumes "attempt_once orc 0 = Inl e0" and "attempt_once orc 1 = Inl e1"
    and "attempt_once orc 2 = Inl e2"
  shows "retry_attempts orc 0 max_retries = Inl e2"
  using assms by (simp add: max_retries_def numeral_3_eq_3 numeral_2_eq_2)

lemma fallback_action_logged: "log_error (get_or (act_value (fallback_action e)) JNull) = None"
  by (simp add: fallback_action_def get_or_def log_error_def)

text \<open>
  Claim C3, as stated, fails: when every attempt of the oracle times out, the
  reasoning node ends with status \<open>complete\<close> and no error, and the planned action is
  the fallback action \<open>done\<close> that \<open>analyze_page\<close> substitutes.
\<close>

theorem oracle_failure_counterexample:
  "status (reasoning_node (answering (\<lambda>i. Inl ''Deadline exceeded''))
             (create_initial_state ''buy a USB cable'' ''session-1'' [] 20)) = Complete
   \<and> error (reasoning_node (answering (\<lambda>i. Inl ''Deadline exceeded''))
             (create_initial_state ''buy a USB cable'' ''session-1'' [] 20)) = None
   \<and> last_action (reasoning_node (answering (\<lambda>i. Inl ''Deadline exceeded''))
             (create_initial_state ''buy a USB cable'' ''session-1'' [] 20))
       = Some (fallback_action ''Deadline exceeded'')"
proof -
  have "analyze_page (answering (\<lambda>i. Inl ''Deadline exceeded'')) = fallback_action ''Deadline exceeded''"
    using retry_all_fail [of "answering (\<lambda>i. Inl ''Deadline exceeded'')"
            "''Deadline exceeded''" "''Deadline exceeded''" "''Deadline exceeded''"]
    by (simp add: analyze_page_def answering_def attempt_once_def)
  then show ?thesis
    by (simp add: reasoning_node_def answering_def Let_def set_status_def add_message_def
          fallback_action_def get_or_def create_initial_state_def)
qed

text \<open>
  Claim C3, amended.  When the analyzer and the screenshot conversion work and all three
  attempts of the oracle fail (by a timeout, a malformed output or an invalid action),
  \<open>analyze_page\<close> returns the fallback action \<open>done\<close> whose reasoning carries the cause
  of the last failure; the reasoning node stores it as the planned action and sets the
  status to \<open>complete\<close>, leaving \<open>error\<close> as it was; the action node appends the
  fallback action to the history, issues no command to the page, and the router ends
  the loop.
\<close>

theorem oracle_failure_falls_back:
  assumes "analyzer_error orc = None" and "image_error orc = None"
    and "attempt_once orc 0 = Inl e0" and "attempt_once orc 1 = Inl e1"
    and "attempt_once orc 2 = Inl e2"
  shows "analyze_page orc = fallback_action e2
     \<and> last_action (reasoning_node orc s) = Some (fallback_action e2)
     \<and> status (reasoning_node orc s) = Complete
     \<and> error (reasoning_node orc s) = error s
     \<and> action_history (fst (action_node (Some pg) (reasoning_node orc s, c)))
         = action_history s @ [fallback_action e2]
     \<and> status (fst (action_node (Some pg) (reasoning_node orc s, c))) = Complete
     \<and> error (fst (action_node (Some pg) (reasoning_node orc s, c))) = error s
     \<and> snd (snd (action_node (Some pg) (reasoning_node orc s, c))) = []
     \<and> route_after_action (fst (action_node (Some pg) (reasoning_node orc s, c))) = End"
proof -
  have a: "analyze_page orc = fallback_action e2"
    using assms retry_all_fail [OF assms(3-5)] by (simp add: analyze_page_def)
  have r: "reasoning_node orc s
             = (add_message (s\<lparr>status := Reasoning, last_action := Some (fallback_action e2)\<rparr>)
                  (ReasoningPlanned (JStr (''Error during analysis: '' @ e2)) (JStr ''done'') JNull))
               \<lparr>status := Complete\<rparr>"
    using assms(1) a
    by (simp add: reasoning_node_def Let_def set_status_def fallback_action_def get_or_def)
  have l: "last_action (reasoning_node orc s) = Some (fallback_action e2)"
    by (simp add: r add_message_def)
  have n: "action_node (Some pg) (reasoning_node orc s, c)
             = (increment_iteration (add_action (set_status (set_status (reasoning_node orc s) Executing) Complete) (fallback_action e2)), c, [])"
    by (simp add: action_node_logged [OF l fallback_action_logged] Let_def)
       (simp add: fallback_action_def get_or_def)
  show ?thesis
    using a
    by (simp add: n route_after_action_def should_stop_def is_complete_def
          increment_iteration_def add_action_def set_status_def)
       (simp add: r add_message_def)
qed

theorem oracle_failure_falls_back_witness:
  "analyze_page (answering (\<lambda>i. Inl ''Deadline exceeded'')) = fallback_action ''Deadline exceeded''
   \<and> status (fst (action_node (Some unresponsive_page)
        (reasoning_node (answering (\<lambda>i. Inl ''Deadline exceeded''))
           (create_initial_state ''buy a USB cable'' ''session-1'' [] 20), Map.empty))) = Complete
   \<and> route_after_action (fst (action_node (Some unresponsive_page)
        (reasoning_node (answering (\<lambda>i. Inl ''Deadline exceeded''))
           (create_initial_state ''buy a USB cable'' ''session-1'' [] 20), Map.empty))) = End"
  using oracle_failure_falls_back [of "answering (\<lambda>i. Inl ''Deadline exceeded'')"
          "''Deadline exceeded''" "''Deadline exceeded''" "''Deadline exceeded''"
          "create_initial_state ''buy a USB cable'' ''session-1'' [] 20" unresponsive_page Map.empty]
  by (simp add: answering_def attempt_once_def)





section \<open>Properties of the agent loop\<close>

lemma observer_node_counters:
  "iterations (observer_node b s) = iterations s
   \<and> max_iterations (observer_node b s) = max_iterations s"
  by (simp add: observer_node_def Let_def set_status_def set_error_def add_message_def
        split: option.splits sum.splits)

lemma reasoning_node_counters:
  "iterations (reasoning_node orc s) = iterations s
   \<and> max_iterations (reasoning_node orc s) = max_iterations s"
  by (simp add: reasoning_node_def Let_def set_status_def set_error_def add_message_def
        split: option.splits)

lemma action_node_counters:
  "iterations (fst (action_node b (s, c))) \<le> iterations s + 1
   \<and> max_iterations (fst (action_node b (s, c))) = max_iterations s"
proof (cases b)
  case None
  then show ?thesis
    by (simp add: action_node_def Let_def set_status_def set_error_def)
next
  case (Some pg)
  show ?thesis
  proof (cases "last_action s")
    case None
    with Some show ?thesis
      by (simp add: action_node_def Let_def set_status_def)
  next
    case a: (Some a)
    show ?thesis
    proof (cases "log_error (get_or (act_value a) JNull)")
      case None
      note f = execute_click_frame [of pg "set_status s Executing" c "get_or (target a) JNull"]
        execute_type_frame [of pg "set_status s Executing" "get_or (target a) JNull"
          "get_or (act_value a) JNull"]
        execute_scroll_frame [of pg "set_status s Executing"]
      show ?thesis
        unfolding Some using f
        by (simp add: action_node_logged [OF a None] Let_def increment_iteration_def
              add_action_def set_status_def)
    next
      case (Some e)
      show ?thesis
        unfolding \<open>b = Some pg\<close>
        by (simp add: action_node_log_raises [OF a Some] set_error_def set_status_def)
    qed
  qed
qed

lemma run_cycle_counters:
  "iterations (fst (run_cycle env sc)) \<le> iterations (fst sc) + 1
   \<and> max_iterations (fst (run_cycle env sc)) = max_iterations (fst sc)"
  using action_node_counters
          [of "browser env" "reasoning_node (vision env) (observer_node (browser env) (fst sc))" "snd sc"]
  by (simp add: run_cycle_def observer_node_counters reasoning_node_counters)

lemma continue_below_bound:
  "route_after_action s \<noteq> End \<Longrightarrow> iterations s < max_iterations s"
  by (simp add: route_after_action_def should_stop_def split: if_splits)

lemma run_graph_bound:
  "iterations (fst sc) < max_iterations (fst sc) \<Longrightarrow>
     iterations (fst (snd (run_graph envs sc evs)))
       \<le> max_iterations (fst (snd (run_graph envs sc evs)))
     \<and> max_iterations (fst (snd (run_graph envs sc evs))) = max_iterations (fst sc)"
proof (induction envs arbitrary: sc evs)
  case Nil
  then show ?case by simp
next
  case (Cons env envs)
  let ?r = "run_cycle env sc"
  have c: "iterations (fst ?r) \<le> iterations (fst sc) + 1"
    and m: "max_iterations (fst ?r) = max_iterations (fst sc)"
    using run_cycle_counters [of env sc] by simp_all
  show ?case
  proof (cases "route_after_action (fst ?r) = End")
    case True
    then have "run_graph (env # envs) sc evs = (True, fst ?r, fst (snd ?r), evs @ snd (snd ?r))"
      by (simp add: split_beta)
    with c m Cons.prems show ?thesis by simp
  next
    case False
    then have "run_graph (env # envs) sc evs
                 = run_graph envs (fst ?r, fst (snd ?r)) (evs @ snd (snd ?r))"
      by (simp add: split_beta)
    moreover from False have "iterations (fst ?r) < max_iterations (fst ?r)"
      by (rule continue_below_bound)
    then have "iterations (fst (fst ?r, fst (snd ?r))) < max_iterations (fst (fst ?r, fst (snd ?r)))"
      by simp
    note Cons.IH [OF this, of "evs @ snd (snd ?r)"]
    ultimately show ?thesis using m by simp
  qed
qed

lemma run_graph_stopped:
  "fst (run_graph envs sc evs) \<Longrightarrow> should_stop (fst (snd (run_graph envs sc evs)))"
proof (induction envs arbitrary: sc evs)
  case Nil
  then show ?case by simp
next
  case (Cons env envs)
  show ?case
  proof (cases "route_after_action (fst (run_cycle env sc)) = End")
    case True
    then show ?thesis
      by (simp add: split_beta route_after_action_def split: if_splits)
  next
    case False
    with Cons show ?thesis by (simp add: split_beta)
  qed
qed

lemma scroll_reasoning:
  "reasoning_node (answering (\<lambda>i. Inr scroll_action)) s
     = add_message (s\<lparr>status := Reasoning, last_action := Some scroll_action\<rparr>)
         (ReasoningPlanned (JStr ''More results are below'') (JStr ''scroll'') JNull)"
proof -
  have e: "analyzer_error (answering (\<lambda>i. Inr scroll_action)) = None"
    by (simp add: answering_def)
  have a: "analyze_page (answering (\<lambda>i. Inr scroll_action)) = scroll_action"
    by (simp add: analyze_page_def answering_def attempt_once_def max_retries_def
          numeral_3_eq_3 validate_action_def scroll_action_def get_or_def)
  show ?thesis
    by (simp add: reasoning_node_def e a Let_def set_status_def)
       (simp add: scroll_action_def get_or_def)
qed

lemma scroll_action_node:
  assumes "last_action s = Some scroll_action"
  shows "action_node (Some pg) (s, c)
       = (increment_iteration (add_action (add_message (set_status s Executing) Scrolled)
            scroll_action), c, [ScrollBy 500])"
proof -
  have l: "log_error (get_or (act_value scroll_action) JNull) = None"
    by (simp add: scroll_action_def get_or_def log_error_def)
  have f: "get_or (action scroll_action) JNull = JStr ''scroll''"
    by (simp add: scroll_action_def get_or_def)
  show ?thesis
    by (simp add: action_node_logged [OF assms l] Let_def f execute_scroll_def)
qed

lemma scroll_cycle:
  "iterations (fst (run_cycle (one_cycle pg (\<lambda>i. Inr scroll_action)) (s, c))) = iterations s + 1
   \<and> max_iterations (fst (run_cycle (one_cycle pg (\<lambda>i. Inr scroll_action)) (s, c)))
       = max_iterations s
   \<and> status (fst (run_cycle (one_cycle pg (\<lambda>i. Inr scroll_action)) (s, c))) = Executing
   \<and> action_history (fst (run_cycle (one_cycle pg (\<lambda>i. Inr scroll_action)) (s, c)))
       = action_history s @ [scroll_action]"
proof -
  let ?o = "observer_node (Some pg) s"
  have l: "last_action (reasoning_node (answering (\<lambda>i. Inr scroll_action)) ?o)
             = Some scroll_action"
    by (simp add: scroll_reasoning add_message_def)
  have h: "action_history ?o = action_history s"
    by (simp add: observer_node_def Let_def set_status_def set_error_def add_message_def
          split: sum.splits)
  show ?thesis
    using observer_node_counters [of "Some pg" s]
    by (simp add: run_cycle_def one_cycle_def scroll_action_node [OF l])
       (simp add: scroll_reasoning increment_iteration_def add_action_def add_message_def
          set_status_def h)
qed

text \<open>
  Claim C6, as stated, fails for \<open>max_iterations = 0\<close>: the router is asked only after
  the action node, so the first cycle runs; after one scroll the loop has stopped with
  the counter at 1, above the bound 0.
\<close>

theorem iteration_bound_counterexample:
  "fst (run_graph [one_cycle unresponsive_page (\<lambda>i. Inr scroll_action)]
          (create_initial_state ''buy a USB cable'' ''session-1'' [] 0, Map.empty) [])
   \<and> iterations (fst (snd (run_graph [one_cycle unresponsive_page (\<lambda>i. Inr scroll_action)]
          (create_initial_state ''buy a USB cable'' ''session-1'' [] 0, Map.empty) []))) = 1
   \<and> max_iterations (fst (snd (run_graph [one_cycle unresponsive_page (\<lambda>i. Inr scroll_action)]
          (create_initial_state ''buy a USB cable'' ''session-1'' [] 0, Map.empty) []))) = 0"
proof -
  let ?s0 = "create_initial_state ''buy a USB cable'' ''session-1'' [] 0"
  let ?env = "one_cycle unresponsive_page (\<lambda>i. Inr scroll_action)"
  let ?s1 = "fst (run_cycle ?env (?s0, Map.empty))"
  have i: "iterations ?s1 = 1" and m: "max_iterations ?s1 = 0"
    by (simp_all add: scroll_cycle) (simp_all add: create_initial_state_def)
  then have "route_after_action ?s1 = End"
    by (simp add: route_after_action_def should_stop_def)
  then have "run_graph [?env] (?s0, Map.empty) []
               = (True, ?s1, fst (snd (run_cycle ?env (?s0, Map.empty))),
                  snd (snd (run_cycle ?env (?s0, Map.empty))))"
    by (simp add: split_beta)
  with i m show ?thesis by simp
qed

text \<open>
  Claim C6, amended.  For every mission created with \<open>iterations = 0\<close> and
  \<open>max_iterations \<ge> 1\<close>, whatever the pages and the oracle answer in the cycles that
  run, the iteration counter never exceeds \<open>max_iterations\<close>, which keeps its value;
  when the loop has stopped, \<open>should_stop\<close> holds; \<open>increment_iteration\<close> adds exactly
  1; and \<open>should_stop\<close> holds, and the router ends the loop, whenever
  \<open>iterations \<ge> max_iterations\<close>.
\<close>

theorem iteration_bound:
  assumes "1 \<le> m"
  shows "iterations (fst (snd (run_graph envs (create_initial_state goal sid u m, c) []))) \<le> m
     \<and> max_iterations (fst (snd (run_graph envs (create_initial_state goal sid u m, c) []))) = m
     \<and> (fst (run_graph envs (create_initial_state goal sid u m, c) []) \<longrightarrow>
          should_stop (fst (snd (run_graph envs (create_initial_state goal sid u m, c) []))))
     \<and> iterations (increment_iteration s) = iterations s + 1
     \<and> (iterations s \<ge> max_iterations s \<longrightarrow> should_stop s)
     \<and> (iterations s \<ge> max_iterations s \<longrightarrow> route_after_action s = End)"
proof -
  have "iterations (fst (create_initial_state goal sid u m, c))
          < max_iterations (fst (create_initial_state goal sid u m, c))"
    using assms by (simp add: create_initial_state_def)
  from run_graph_bound [OF this, of envs "[]"]
  have "iterations (fst (snd (run_graph envs (create_initial_state goal sid u m, c) []))) \<le> m
     \<and> max_iterations (fst (snd (run_graph envs (create_initial_state goal sid u m, c) []))) = m"
    by (simp add: create_initial_state_def)
  moreover have "fst (run_graph envs (create_initial_state goal sid u m, c) []) \<longrightarrow>
          should_stop (fst (snd (run_graph envs (create_initial_state goal sid u m, c) [])))"
    using run_graph_stopped [of envs "(create_initial_state goal sid u m, c)" "[]"] by blast
  moreover have "iterations (increment_iteration s) = iterations s + 1
     \<and> (iterations s \<ge> max_iterations s \<longrightarrow> should_stop s)
     \<and> (iterations s \<ge> max_iterations s \<longrightarrow> route_after_action s = End)"
    by (simp add: increment_iteration_def should_stop_def route_after_action_def)
  ultimately show ?thesis by blast
qed

theorem iteration_bound_witness:
  "fst (run_graph [one_cycle unresponsive_page (\<lambda>i. Inr scroll_action)]
          (create_initial_state ''buy a USB cable'' ''session-1'' [] 1, Map.empty) [])
   \<and> iterations (fst (snd (run_graph [one_cycle unresponsive_page (\<lambda>i. Inr scroll_action)]
          (create_initial_state ''buy a USB cable'' ''session-1'' [] 1, Map.empty) []))) \<le> 1
   \<and> should_stop (fst (snd (run_graph [one_cycle unresponsive_page (\<lambda>i. Inr scroll_action)]
          (create_initial_state ''buy a USB cable'' ''session-1'' [] 1, Map.empty) [])))"
proof -
  let ?s0 = "create_initial_state ''buy a USB cable'' ''session-1'' [] 1"
  let ?env = "one_cycle unresponsive_page (\<lambda>i. Inr scroll_action)"
  let ?s1 = "fst (run_cycle ?env (?s0, Map.empty))"
  have "iterations ?s1 = 1" and "max_iterations ?s1 = 1"
    by (simp_all add: scroll_cycle) (simp_all add: create_initial_state_def)
  then have "route_after_action ?s1 = End"
    by (simp add: route_after_action_def should_stop_def)
  then have r: "fst (run_graph [?env] (?s0, Map.empty) [])"
    by (simp add: split_beta)
  have h: "(1::int) \<le> 1" by simp
  from iteration_bound [OF h, of "[?env]" "''buy a USB cable''" "''session-1''" "[]" Map.empty] r
  show ?thesis by blast
qed

end
